theory Spec2Isabelle
  imports Main
begin

section \<open>The remote service as seen by the tool handlers\<close>

text \<open>
  The handlers of \<^verbatim>\<open>src/index.ts\<close> are asynchronous functions that call \<^verbatim>\<open>fetch\<close>
  on URLs of the Bitbucket REST interface and assemble one result object. The embedding
  makes the network explicit:
  \<^item> a request is a value of type \<open>request\<close>, one constructor per URL template;
  \<^item> the network is a function \<open>net\<close> from the number of requests issued so far and
    the request to the outcome of \<^verbatim>\<open>await fetch(url)\<close>;
  \<^item> every handler returns its result together with the list of requests it issued,
    in the order of issue.

  Numbers accepted by \<^verbatim>\<open>z.number()\<close> and numbers of the remote payloads are modelled
  as integers (identifiers, page sizes, page numbers); the number that \<^verbatim>\<open>parseInt\<close>
  computes is modelled as the double it is. Payloads are typed: a field read
  through \<^verbatim>\<open>?.\<close> or tested for truthiness is an \<open>option\<close>, any other field is
  present. Where a handler reads fields of a 2xx body that is not of the shape it
  expects, the \<^verbatim>\<open>TypeError\<close> of the first such read is modelled as thrown where
  \<^verbatim>\<open>json()\<close> returns.
\<close>

subsection \<open>Decimal digits of a natural number\<close>

definition digit_char :: "nat \<Rightarrow> char" where
  "digit_char n = ''0123456789'' ! (n mod 10)"

fun show_nat :: "nat \<Rightarrow> string" where
  "show_nat n = (if n < 10 then [digit_char n] else show_nat (n div 10) @ [digit_char n])"

declare show_nat.simps [simp del]

subsection \<open>JavaScript numbers\<close>

text \<open>
  A JavaScript number is an IEEE 754 double. Every integer of magnitude below \<open>2^53\<close>
  (9007199254740992) is a double; a larger one is represented by the nearest double, on
  a tie the one with the even significand, and by \<^verbatim>\<open>Infinity\<close> when that rounding reaches
  \<open>2^1024\<close>. \<open>exponent n\<close> is the number of low bits of \<open>n\<close> beyond the 53 bits of a
  significand, and \<open>to_double n\<close> is the number value of the non-negative integer \<open>n\<close>.
\<close>

datatype number = Finite int | Infinity

fun exponent :: "nat \<Rightarrow> nat" where
  "exponent n = (if n < 9007199254740992 then 0 else Suc (exponent (n div 2)))"

declare exponent.simps [simp del]

definition to_double :: "nat \<Rightarrow> number" where
  "to_double n =
     (let e = exponent n; q = n div 2 ^ e; r = n mod 2 ^ e;
          q' = (if 2 ^ e < 2 * r \<or> (2 * r = 2 ^ e \<and> odd q) then q + 1 else q)
      in if 2 ^ 1024 \<le> q' * 2 ^ e then Infinity else Finite (int (q' * 2 ^ e)))"

text \<open>
  \<^verbatim>\<open>JSON.stringify\<close> writes a finite number in decimal and \<^verbatim>\<open>Infinity\<close> as \<^verbatim>\<open>null\<close>;
  \<open>None\<close> is \<^verbatim>\<open>null\<close>.
\<close>

definition written :: "number option \<Rightarrow> int option" where
  "written x = (case x of None \<Rightarrow> None | Some Infinity \<Rightarrow> None | Some (Finite i) \<Rightarrow> Some i)"

text \<open>
  A number inside a template string, \<^verbatim>\<open>${n}\<close>, for an integer \<open>n\<close> that is a double
  (ECMAScript \<^verbatim>\<open>Number::toString\<close>). The digits are the fewest whose decimal value rounds
  to \<open>n\<close>, the closest to \<open>n\<close> among those; below \<open>2^53\<close> they are the digits of \<open>n\<close>
  itself. They are followed by zeros up to 21 digits in all, and are written
  in exponent form, \<^verbatim>\<open>d.ddde+x\<close>, beyond.
\<close>

definition rounds_to :: "nat \<Rightarrow> nat \<Rightarrow> bool" where
  "rounds_to v x \<longleftrightarrow> to_double v = Finite (int x)"

text \<open>The multiple of \<open>p\<close> next to \<open>x\<close> that rounds to \<open>x\<close>, the closer one if both do.\<close>

definition candidate :: "nat \<Rightarrow> nat \<Rightarrow> nat option" where
  "candidate x p =
     (let lo = (x div p) * p; hi = lo + p
      in if rounds_to lo x \<and> rounds_to hi x then Some (if x - lo \<le> hi - x then lo else hi)
         else if rounds_to lo x then Some lo
         else if rounds_to hi x then Some hi
         else None)"

definition shortest :: "nat \<Rightarrow> nat" where
  "shortest x =
     (case List.map_filter (\<lambda>j. candidate x (10 ^ j)) (rev [0..<length (show_nat x)]) of
        [] \<Rightarrow> x
      | v # _ \<Rightarrow> v)"

definition exponent_form :: "string \<Rightarrow> string" where
  "exponent_form ds =
     (case rev (dropWhile (\<lambda>c. c = CHR ''0'') (rev ds)) of
        [] \<Rightarrow> ds
      | d # fraction \<Rightarrow>
          d # (if fraction = [] then [] else CHR ''.'' # fraction)
            @ ''e+'' @ show_nat (length ds - 1))"

definition number_text_nat :: "nat \<Rightarrow> string" where
  "number_text_nat x =
     (if x < 9007199254740992 then show_nat x
      else (let ds = show_nat (shortest x)
            in if length ds \<le> 21 then ds else exponent_form ds))"

definition number_text :: "int \<Rightarrow> string" where
  "number_text i =
     (if i < 0 then CHR ''-'' # number_text_nat (nat (- i)) else number_text_nat (nat i))"

subsection \<open>Requests\<close>

text \<open>
  All URLs start with \<^verbatim>\<open>https://api.bitbucket.org/2.0/repositories/${WORKSPACE_AND_REPO_PATH}\<close>;
  the constructors keep the parts the handlers fill in.
\<close>

datatype request =
    List_PRs string int int "string option"
      \<comment> \<open>\<^verbatim>\<open>/pullrequests?state=${prState}&pagelen=${prLimit}&page=${pageNum}\<close>, and
          \<^verbatim>\<open>&q=destination.branch.name="${target_branch}"\<close> when given\<close>
  | Get_PR int
      \<comment> \<open>\<^verbatim>\<open>/pullrequests/${pr_id}\<close>\<close>
  | Search_PRs string
      \<comment> \<open>\<^verbatim>\<open>/pullrequests?q=source.branch.name="${source_branch}"\<close>\<close>
  | Get_PR_Commits int
      \<comment> \<open>\<^verbatim>\<open>/pullrequests/${pr.id}/commits\<close>\<close>
  | Get_Commit_Diff string
      \<comment> \<open>\<^verbatim>\<open>/diff/${commit.hash}\<close>, \<^verbatim>\<open>Accept: text/plain\<close>\<close>
  | List_Pipelines int int "string option" "string option"
      \<comment> \<open>\<^verbatim>\<open>/pipelines/?pagelen=${pipelineLimit}&page=${pageNum}&sort=-created_on\<close>, and
          \<^verbatim>\<open>&state=${state}\<close>, \<^verbatim>\<open>&target.ref_name=${target_branch}\<close> when given\<close>
  | Get_Commit string
      \<comment> \<open>\<^verbatim>\<open>/commit/${pipeline.target.commit.hash}\<close>\<close>
  | Get_PR_Comments int int
      \<comment> \<open>\<^verbatim>\<open>/pullrequests/${pr_id}/comments?pagelen=${commentLimit}\<close>\<close>
  | Post_Comment int string
      \<comment> \<open>\<^verbatim>\<open>POST /pullrequests/${pr_id}/comments\<close> with the body
          \<^verbatim>\<open>{ content: { raw: content } }\<close>\<close>

subsection \<open>Remote payloads\<close>

record reviewer =
  rv_display_name :: string
  rv_approved :: bool

record pull_request =
  pr_id :: int
  pr_title :: string
  pr_description :: string
  pr_state :: string
  pr_author :: string                  \<comment> \<open>\<^verbatim>\<open>pr.author.display_name\<close>\<close>
  pr_created_on :: string
  pr_updated_on :: string
  pr_source_branch :: string           \<comment> \<open>\<^verbatim>\<open>pr.source.branch.name\<close>\<close>
  pr_destination_branch :: string      \<comment> \<open>\<^verbatim>\<open>pr.destination.branch.name\<close>\<close>
  pr_html :: string                    \<comment> \<open>\<^verbatim>\<open>pr.links.html.href\<close>\<close>
  pr_reviewers :: "reviewer list option"

record commit =
  c_hash :: string
  c_message :: string
  c_author_user :: "string option"     \<comment> \<open>\<^verbatim>\<open>commit.author.user?.display_name\<close>\<close>
  c_author_raw :: string               \<comment> \<open>\<^verbatim>\<open>commit.author.raw\<close>\<close>
  c_date :: string

record commit_ref =
  cr_hash :: "string option"
  cr_message :: "string option"

record target =
  tg_ref_name :: string
  tg_commit :: "commit_ref option"

record pipeline =
  pl_state :: string
  pl_created_on :: string
  pl_completed_on :: string
  pl_run_number :: int
  pl_duration_in_seconds :: int
  pl_target :: "target option"

record inline_anchor =
  in_from :: "int option"
  in_to :: "int option"
  in_path :: string

record comment =
  cm_id :: int
  cm_raw :: string                     \<comment> \<open>\<^verbatim>\<open>comment.content.raw\<close>\<close>
  cm_user :: string                    \<comment> \<open>\<^verbatim>\<open>comment.user.display_name\<close>\<close>
  cm_created_on :: string
  cm_updated_on :: string
  cm_type :: string
  cm_inline :: "inline_anchor option"
  cm_html :: "string option"           \<comment> \<open>\<^verbatim>\<open>comment.links?.html?.href\<close>\<close>

record 'a page =
  pg_size :: int                       \<comment> \<open>\<^verbatim>\<open>data.size\<close>\<close>
  pg_next :: "string option"
  pg_previous :: "string option"
  pg_values :: "'a list"

datatype json_body =
    J_PR pull_request
  | J_PR_Page "pull_request page"
  | J_Commits "commit list"            \<comment> \<open>\<^verbatim>\<open>commitsData.values\<close>\<close>
  | J_Commit "string option"           \<comment> \<open>\<^verbatim>\<open>commitData.message\<close>\<close>
  | J_Pipeline_Page "pipeline page"
  | J_Comment_Page "comment page"
  | J_Comment comment

text \<open>
  A response carries its status line and what \<^verbatim>\<open>await response.text()\<close> and
  \<^verbatim>\<open>await response.json()\<close> give: \<open>Inl\<close> is the message of the error it rejects with.
\<close>

record response =
  status :: nat
  statusText :: string
  text_body :: "string + string"
  json_body :: "string + json_body"

definition ok :: "response \<Rightarrow> bool" where
  "ok r \<longleftrightarrow> 200 \<le> status r \<and> status r \<le> 299"

datatype fetch_outcome =
    Rejected string                    \<comment> \<open>\<^verbatim>\<open>fetch\<close> throws an error with this message\<close>
  | Resolved response

type_synonym net = "nat \<Rightarrow> request \<Rightarrow> fetch_outcome"

definition fetch :: "net \<Rightarrow> request list \<Rightarrow> request \<Rightarrow> fetch_outcome \<times> request list" where
  "fetch net log req = (net (length log) req, log @ [req])"

text \<open>JavaScript truthiness of the optional arguments and fields the handlers test.\<close>

definition truthy_str :: "string option \<Rightarrow> bool" where
  "truthy_str s \<longleftrightarrow> (case s of None \<Rightarrow> False | Some t \<Rightarrow> t \<noteq> [])"

definition truthy_num :: "int option \<Rightarrow> bool" where
  "truthy_num n \<longleftrightarrow> (case n of None \<Rightarrow> False | Some k \<Rightarrow> k \<noteq> 0)"

text \<open>\<^verbatim>\<open>x || d\<close> on an optional number, and \<^verbatim>\<open>x || null\<close> on an optional string.\<close>

definition num_or :: "int option \<Rightarrow> int \<Rightarrow> int" where
  "num_or n d = (case n of None \<Rightarrow> d | Some k \<Rightarrow> if k \<noteq> 0 then k else d)"

definition str_or_null :: "string option \<Rightarrow> string option" where
  "str_or_null s = (if truthy_str s then s else None)"

text \<open>\<^verbatim>\<open>`Bitbucket API error: ${response.status} ${response.statusText}`\<close>\<close>

definition api_error :: "response \<Rightarrow> string" where
  "api_error r = ''Bitbucket API error: '' @ show_nat (status r) @ '' '' @ statusText r"

subsection \<open>Tool results\<close>

text \<open>
  A handler returns \<^verbatim>\<open>{ content: [{ type: "text", text }], isError? }\<close>. Where the
  text is \<^verbatim>\<open>JSON.stringify(obj, null, 2)\<close> the model keeps the object \<open>obj\<close>; an absent
  \<^verbatim>\<open>isError\<close> is \<open>False\<close>. A key that an object may lack is an \<open>option\<close> whose
  \<open>None\<close> is the absent key, so \<open>Some JNull\<close> is a key holding \<^verbatim>\<open>null\<close>.
\<close>

datatype json_value = JNull | JStr string

record pr_summary =
  ps_id :: int
  ps_title :: string
  ps_description :: string
  ps_state :: string
  ps_author :: string
  ps_created_on :: string
  ps_updated_on :: string
  ps_source_branch :: string
  ps_destination_branch :: string
  ps_html :: string

record commit_data =
  cd_hash :: string
  cd_message :: string
  cd_author :: string
  cd_date :: string
  cd_diff :: "json_value option"

datatype commit_entry =
    Commit_Data commit_data
  | Commit_Error string

record pr_details =
  pd_id :: int
  pd_title :: string
  pd_state :: string
  pd_author :: string
  pd_created_on :: string
  pd_updated_on :: string
  pd_source_branch :: string
  pd_destination_branch :: string
  pd_html :: string
  pd_reviewers :: "reviewer list"
  pd_commits :: "commit_entry list"

record pipeline_out =
  po_pr_id :: "number option"          \<comment> \<open>\<open>None\<close> is \<^verbatim>\<open>null\<close>\<close>
  po_state :: string
  po_created_on :: string
  po_completed_on :: string
  po_run_number :: int
  po_duration_in_seconds :: int
  po_target :: "target option"

record comment_out =
  co_id :: int
  co_content :: string
  co_author :: string
  co_created_on :: string
  co_updated_on :: string
  co_type :: string
  co_inline :: "inline_anchor option"  \<comment> \<open>\<open>None\<close> is \<^verbatim>\<open>null\<close>\<close>
  co_html :: "string option"

record comment_details =
  cdt_id :: int
  cdt_content :: string
  cdt_author :: string
  cdt_created_on :: string
  cdt_type :: string
  cdt_html :: "string option"

record 'a listing =
  ls_total_count :: int
  ls_page :: int
  ls_page_length :: int
  ls_next :: "string option"
  ls_previous :: "string option"
  ls_items :: "'a list"

datatype content =
    Text string
  | PR_List_Json "pr_summary listing"
  | PR_Details_Json string pr_details
      \<comment> \<open>\<^verbatim>\<open>{ search_method, pull_request }\<close>\<close>
  | Pipelines_Json "pipeline_out listing"
  | PR_Comments_Json int int "comment_out list"
      \<comment> \<open>\<^verbatim>\<open>{ pull_request_id, total_count, comments }\<close>\<close>
  | Comment_Added_Json int comment_details
      \<comment> \<open>\<^verbatim>\<open>{ pull_request_id, message, comment }\<close>\<close>

record tool_result =
  content :: content
  isError :: bool

text \<open>
  The message of the \<^verbatim>\<open>TypeError\<close> a handler throws on a 2xx JSON body of another
  shape than the one it reads.
\<close>

definition wrong_shape :: string where
  "wrong_shape = ''TypeError''"

section \<open>\<^verbatim>\<open>list_pipelines\<close>\<close>

subsection \<open>The pull-request id of a commit message\<close>

definition is_digit :: "char \<Rightarrow> bool" where
  "is_digit c \<longleftrightarrow> c \<in> set ''0123456789''"

text \<open>
  \<^verbatim>\<open>commitMessage.match(/#(\d+)/)\<close>: the regular expression is tried at each position
  from the left; at a position it needs \<^verbatim>\<open>#\<close> and then takes as many digits as there
  are, at least one. The result is capture group 1 of the leftmost match, \<open>None\<close> for
  \<^verbatim>\<open>null\<close>.
\<close>

fun match_pr_id :: "string \<Rightarrow> string option" where
  "match_pr_id [] = None"
| "match_pr_id (c # cs) =
     (if c = CHR ''#'' \<and> takeWhile is_digit cs \<noteq> [] then Some (takeWhile is_digit cs)
      else match_pr_id cs)"

definition digit_value :: "char \<Rightarrow> nat" where
  "digit_value c = of_char c - 48"

text \<open>
  \<^verbatim>\<open>parseInt\<close> on a run of decimal digits, the only strings it is applied to here
  (no sign, prefix or white space to skip, radix ten): \<open>mathInt\<close> is the integer the
  digits denote, and the result is its number value. (ECMAScript lets an implementation
  take the digits after the twentieth as zeros; the model rounds the exact integer, as
  V8 does.)
\<close>

definition mathInt :: "string \<Rightarrow> nat" where
  "mathInt ds = foldl (\<lambda>a c. 10 * a + digit_value c) 0 ds"

definition parseInt :: "string \<Rightarrow> number" where
  "parseInt ds = to_double (mathInt ds)"

text \<open>
  \<^verbatim>\<open>const prIdMatch = commitMessage?.match(/#(\d+)/);\<close>
  \<^verbatim>\<open>const pr_id = prIdMatch ? parseInt(prIdMatch[1]) : null;\<close>
\<close>

definition extract_pr_id :: "string option \<Rightarrow> number option" where
  "extract_pr_id commitMessage =
     (case commitMessage of
        None \<Rightarrow> None
      | Some m \<Rightarrow> (case match_pr_id m of None \<Rightarrow> None | Some g \<Rightarrow> Some (parseInt g)))"

subsection \<open>The callback applied to each pipeline\<close>

text \<open>\<^verbatim>\<open>pipeline.target?.commit?.message\<close> and \<^verbatim>\<open>pipeline.target?.commit?.hash\<close>\<close>

definition target_message :: "target option \<Rightarrow> string option" where
  "target_message t =
     (case t of None \<Rightarrow> None
      | Some tg \<Rightarrow> (case tg_commit tg of None \<Rightarrow> None | Some c \<Rightarrow> cr_message c))"

definition target_hash :: "target option \<Rightarrow> string option" where
  "target_hash t =
     (case t of None \<Rightarrow> None
      | Some tg \<Rightarrow> (case tg_commit tg of None \<Rightarrow> None | Some c \<Rightarrow> cr_hash c))"

text \<open>
  \<^verbatim>\<open>if (pipeline.target && pipeline.target.commit) pipeline.target.commit.message = commitMessage;\<close>
\<close>

definition set_target_message :: "target option \<Rightarrow> string option \<Rightarrow> target option" where
  "set_target_message t m =
     (case t of None \<Rightarrow> None
      | Some tg \<Rightarrow>
          (case tg_commit tg of None \<Rightarrow> Some tg
           | Some c \<Rightarrow> Some (tg\<lparr>tg_commit := Some (c\<lparr>cr_message := m\<rparr>)\<rparr>)))"

text \<open>
  The \<^verbatim>\<open>try\<close> block around the commit lookup, given the outcome of its \<^verbatim>\<open>fetch\<close>:
  the values of \<^verbatim>\<open>commitMessage\<close> and of \<^verbatim>\<open>pipeline.target\<close> after it. A rejected
  fetch, a rejected \<^verbatim>\<open>json()\<close> and a non-2xx status all leave both as they were. A 2xx
  body of another shape has no \<^verbatim>\<open>message\<close>, as a commit without one.
\<close>

definition commit_lookup :: "fetch_outcome \<Rightarrow> target option \<Rightarrow> string option \<times> target option" where
  "commit_lookup out t =
     (case out of
        Rejected e \<Rightarrow> (target_message t, t)
      | Resolved r \<Rightarrow>
          if ok r then
            (case json_body r of
               Inl e \<Rightarrow> (target_message t, t)
             | Inr (J_Commit m) \<Rightarrow> (m, set_target_message t m)
             | Inr _ \<Rightarrow> (None, set_target_message t None))
          else (target_message t, t))"

text \<open>\<^verbatim>\<open>!commitMessage && pipeline.target?.commit?.hash\<close>\<close>

definition needs_lookup :: "pipeline \<Rightarrow> bool" where
  "needs_lookup p \<longleftrightarrow>
     \<not> truthy_str (target_message (pl_target p)) \<and> truthy_str (target_hash (pl_target p))"

text \<open>An optional string inside a template string: \<^verbatim>\<open>${x}\<close> renders an absent \<^verbatim>\<open>x\<close> as \<^verbatim>\<open>undefined\<close>.\<close>

definition str_of :: "string option \<Rightarrow> string" where
  "str_of s = (case s of None \<Rightarrow> ''undefined'' | Some t \<Rightarrow> t)"

definition pipeline_result :: "pipeline \<Rightarrow> string option \<Rightarrow> target option \<Rightarrow> pipeline_out" where
  "pipeline_result p commitMessage t =
     \<lparr>po_pr_id = extract_pr_id commitMessage,
      po_state = pl_state p,
      po_created_on = pl_created_on p,
      po_completed_on = pl_completed_on p,
      po_run_number = pl_run_number p,
      po_duration_in_seconds = pl_duration_in_seconds p,
      po_target = t\<rparr>"

definition commitUrl :: "pipeline \<Rightarrow> request" where
  "commitUrl p = Get_Commit (str_of (target_hash (pl_target p)))"

definition enrich_pipeline :: "net \<Rightarrow> request list \<Rightarrow> pipeline \<Rightarrow> pipeline_out \<times> request list" where
  "enrich_pipeline net log p =
     (if needs_lookup p then
        (case fetch net log (commitUrl p) of
           (out, log') \<Rightarrow>
             (case commit_lookup out (pl_target p) of
                (commitMessage, t) \<Rightarrow> (pipeline_result p commitMessage t, log')))
      else (pipeline_result p (target_message (pl_target p)) (pl_target p), log))"

text \<open>
  \<^verbatim>\<open>Promise.all(data.values.map(async (pipeline) => ...))\<close>: each callback runs up to its
  first \<^verbatim>\<open>await\<close>, the lookup's \<^verbatim>\<open>fetch\<close>, before the next one starts, so the
  lookups are issued in the order of the pipelines, and the results are in that order.
\<close>

fun enrich_pipelines :: "net \<Rightarrow> request list \<Rightarrow> pipeline list \<Rightarrow> pipeline_out list \<times> request list" where
  "enrich_pipelines net log [] = ([], log)"
| "enrich_pipelines net log (p # ps) =
     (case enrich_pipeline net log p of
        (x, log') \<Rightarrow>
          (case enrich_pipelines net log' ps of (xs, log'') \<Rightarrow> (x # xs, log'')))"

subsection \<open>The handler\<close>

record list_pipelines_args =
  lp_state :: "string option"
  lp_limit :: "int option"
  lp_page :: "int option"
  lp_target_branch :: "string option"

definition pipelines_error :: "string \<Rightarrow> tool_result" where
  "pipelines_error e = \<lparr>content = Text (''Error fetching pipelines: '' @ e), isError = True\<rparr>"

definition pipelines_url :: "list_pipelines_args \<Rightarrow> request" where
  "pipelines_url args =
     List_Pipelines (num_or (lp_limit args) 10) (num_or (lp_page args) 1)
       (str_or_null (lp_state args)) (str_or_null (lp_target_branch args))"

definition list_pipelines :: "net \<Rightarrow> list_pipelines_args \<Rightarrow> tool_result \<times> request list" where
  "list_pipelines net args =
     (let pipelineLimit = num_or (lp_limit args) 10;
          pageNum = num_or (lp_page args) 1
      in case fetch net [] (pipelines_url args) of
           (out, log) \<Rightarrow>
             (case out of
                Rejected e \<Rightarrow> (pipelines_error e, log)
              | Resolved r \<Rightarrow>
                  if \<not> ok r then (pipelines_error (api_error r), log)
                  else
                    (case json_body r of
                       Inl e \<Rightarrow> (pipelines_error e, log)
                     | Inr (J_Pipeline_Page data) \<Rightarrow>
                         (case enrich_pipelines net log (pg_values data) of
                            (pipelines, log') \<Rightarrow>
                              (\<lparr>content = Pipelines_Json
                                   \<lparr>ls_total_count = pg_size data,
                                    ls_page = pageNum,
                                    ls_page_length = pipelineLimit,
                                    ls_next = str_or_null (pg_next data),
                                    ls_previous = str_or_null (pg_previous data),
                                    ls_items = pipelines\<rparr>,
                                isError = False\<rparr>, log'))
                     | Inr _ \<Rightarrow> (pipelines_error wrong_shape, log))))"

section \<open>\<^verbatim>\<open>get_pr_details\<close>\<close>

record get_pr_details_args =
  gd_source_branch :: "string option"
  gd_pr_id :: "int option"
  gd_include_diff :: "bool option"

definition invalid_argument :: tool_result where
  "invalid_argument =
     \<lparr>content = Text ''Either source_branch or pr_id must be provided'', isError = True\<rparr>"

text \<open>The \<^verbatim>\<open>catch\<close> block of the handler.\<close>

definition details_error :: "string \<Rightarrow> tool_result" where
  "details_error e = \<lparr>content = Text (''Error fetching PR with diff: '' @ e), isError = True\<rparr>"

definition not_found :: "string option \<Rightarrow> tool_result" where
  "not_found source_branch =
     \<lparr>content = Text (''No pull request found for source branch: '' @ str_of source_branch),
      isError = False\<rparr>"

text \<open>
  How the block that assigns \<^verbatim>\<open>pr\<close> ends: it throws, it returns from the handler, or
  it goes on with a pull request.
\<close>

datatype resolution =
    Thrown string
  | Returned tool_result
  | Found pull_request

definition resolve_pr ::
  "net \<Rightarrow> request list \<Rightarrow> get_pr_details_args \<Rightarrow> resolution \<times> request list" where
  "resolve_pr net log args =
     (if truthy_num (gd_pr_id args) then
        (case fetch net log (Get_PR (num_or (gd_pr_id args) 0)) of
           (out, log') \<Rightarrow>
             (case out of
                Rejected e \<Rightarrow> (Thrown e, log')
              | Resolved prResponse \<Rightarrow>
                  if \<not> ok prResponse then (Thrown (api_error prResponse), log')
                  else
                    (case json_body prResponse of
                       Inl e \<Rightarrow> (Thrown e, log')
                     | Inr (J_PR pr) \<Rightarrow> (Found pr, log')
                     | Inr _ \<Rightarrow> (Thrown wrong_shape, log'))))
      else
        (case fetch net log (Search_PRs (str_of (gd_source_branch args))) of
           (out, log') \<Rightarrow>
             (case out of
                Rejected e \<Rightarrow> (Thrown e, log')
              | Resolved searchResponse \<Rightarrow>
                  if \<not> ok searchResponse then (Thrown (api_error searchResponse), log')
                  else
                    (case json_body searchResponse of
                       Inl e \<Rightarrow> (Thrown e, log')
                     | Inr (J_PR_Page searchData) \<Rightarrow>
                         (case pg_values searchData of
                            [] \<Rightarrow> (Returned (not_found (gd_source_branch args)), log')
                          | pr # _ \<Rightarrow> (Found pr, log'))
                     | Inr _ \<Rightarrow> (Thrown wrong_shape, log')))))"

text \<open>The value of \<^verbatim>\<open>diff\<close> after the inner \<^verbatim>\<open>try\<close>/\<^verbatim>\<open>catch\<close>.\<close>

definition commit_diff :: "fetch_outcome \<Rightarrow> string" where
  "commit_diff out =
     (case out of
        Rejected e \<Rightarrow> ''Error fetching diff: '' @ e
      | Resolved commitDiffResponse \<Rightarrow>
          if ok commitDiffResponse then
            (case text_body commitDiffResponse of
               Inl e \<Rightarrow> ''Error fetching diff: '' @ e
             | Inr t \<Rightarrow> t)
          else ''Error fetching diff: '' @ show_nat (status commitDiffResponse) @ '' ''
                 @ statusText commitDiffResponse)"

text \<open>\<^verbatim>\<open>commit.author.user?.display_name || commit.author.raw\<close>\<close>

definition commit_author :: "commit \<Rightarrow> string" where
  "commit_author c = (if truthy_str (c_author_user c) then str_of (c_author_user c) else c_author_raw c)"

text \<open>
  The body of \<^verbatim>\<open>for (const commit of commitsData.values)\<close>; the \<open>cd_diff\<close> key is set
  only under \<^verbatim>\<open>if (shouldIncludeDiff)\<close>.
\<close>

definition commitData :: "net \<Rightarrow> bool \<Rightarrow> request list \<Rightarrow> commit \<Rightarrow> commit_data \<times> request list" where
  "commitData net shouldIncludeDiff log c =
     (case (if shouldIncludeDiff then
              (case fetch net log (Get_Commit_Diff (c_hash c)) of
                 (out, log') \<Rightarrow> (JStr (commit_diff out), log'))
            else (JNull, log)) of
        (diff, log') \<Rightarrow>
          (\<lparr>cd_hash = c_hash c,
            cd_message = c_message c,
            cd_author = commit_author c,
            cd_date = c_date c,
            cd_diff = (if shouldIncludeDiff then Some diff else None)\<rparr>, log'))"

fun commit_loop :: "net \<Rightarrow> bool \<Rightarrow> request list \<Rightarrow> commit list \<Rightarrow> commit_data list \<times> request list" where
  "commit_loop net shouldIncludeDiff log [] = ([], log)"
| "commit_loop net shouldIncludeDiff log (c # cs) =
     (case commitData net shouldIncludeDiff log c of
        (x, log') \<Rightarrow>
          (case commit_loop net shouldIncludeDiff log' cs of
             (commits, log'') \<Rightarrow> (x # commits, log'')))"

text \<open>\<^verbatim>\<open>pr_id ? `pr_id: ${pr_id}` : `source_branch: ${source_branch}`\<close>\<close>

definition search_method :: "get_pr_details_args \<Rightarrow> string" where
  "search_method args =
     (if truthy_num (gd_pr_id args) then ''pr_id: '' @ number_text (num_or (gd_pr_id args) 0)
      else ''source_branch: '' @ str_of (gd_source_branch args))"

definition prDetails :: "pull_request \<Rightarrow> commit_entry list \<Rightarrow> pr_details" where
  "prDetails pr commits =
     \<lparr>pd_id = pr_id pr,
      pd_title = pr_title pr,
      pd_state = pr_state pr,
      pd_author = pr_author pr,
      pd_created_on = pr_created_on pr,
      pd_updated_on = pr_updated_on pr,
      pd_source_branch = pr_source_branch pr,
      pd_destination_branch = pr_destination_branch pr,
      pd_html = pr_html pr,
      pd_reviewers = (case pr_reviewers pr of None \<Rightarrow> [] | Some rs \<Rightarrow> rs),
      pd_commits = commits\<rparr>"

definition details_result :: "get_pr_details_args \<Rightarrow> pull_request \<Rightarrow> commit_entry list \<Rightarrow> tool_result" where
  "details_result args pr commits =
     \<lparr>content = PR_Details_Json (search_method args) (prDetails pr commits), isError = False\<rparr>"

definition commits_error :: "response \<Rightarrow> string" where
  "commits_error r = ''Error fetching commits: '' @ show_nat (status r) @ '' '' @ statusText r"

text \<open>The handler from \<^verbatim>\<open>// Get commits for this PR\<close> on, for the pull request found.\<close>

definition pr_with_commits ::
  "net \<Rightarrow> request list \<Rightarrow> get_pr_details_args \<Rightarrow> pull_request \<Rightarrow> tool_result \<times> request list" where
  "pr_with_commits net log args pr =
     (case fetch net log (Get_PR_Commits (pr_id pr)) of
        (out, log') \<Rightarrow>
          (case out of
             Rejected e \<Rightarrow> (details_error e, log')
           | Resolved commitsResponse \<Rightarrow>
               if ok commitsResponse then
                 (case json_body commitsResponse of
                    Inl e \<Rightarrow> (details_error e, log')
                  | Inr (J_Commits values) \<Rightarrow>
                      (case commit_loop net (gd_include_diff args = Some True) log' values of
                         (commits, log'') \<Rightarrow>
                           (details_result args pr (map Commit_Data commits), log''))
                  | Inr _ \<Rightarrow> (details_error wrong_shape, log'))
               else (details_result args pr [Commit_Error (commits_error commitsResponse)], log')))"

definition get_pr_details :: "net \<Rightarrow> get_pr_details_args \<Rightarrow> tool_result \<times> request list" where
  "get_pr_details net args =
     (if \<not> truthy_str (gd_source_branch args) \<and> \<not> truthy_num (gd_pr_id args)
      then (invalid_argument, [])
      else
        (case resolve_pr net [] args of
           (Thrown e, log) \<Rightarrow> (details_error e, log)
         | (Returned res, log) \<Rightarrow> (res, log)
         | (Found pr, log) \<Rightarrow> pr_with_commits net log args pr))"

section \<open>\<^verbatim>\<open>list_pull_requests\<close>\<close>

record list_pull_requests_args =
  lr_state :: "string option"
  lr_limit :: "int option"
  lr_page :: "int option"
  lr_target_branch :: "string option"

text \<open>
  The schema registered with the tool:
  \<^verbatim>\<open>state: z.enum(["OPEN", "MERGED", "DECLINED"]).optional()\<close>,
  \<^verbatim>\<open>limit: z.number().min(1).max(100).optional()\<close>,
  \<^verbatim>\<open>page: z.number().min(1).optional()\<close>,
  \<^verbatim>\<open>target_branch: z.string().optional()\<close>.
\<close>

definition list_pull_requests_schema :: "list_pull_requests_args \<Rightarrow> bool" where
  "list_pull_requests_schema args \<longleftrightarrow>
     (case lr_state args of None \<Rightarrow> True | Some s \<Rightarrow> s \<in> set [''OPEN'', ''MERGED'', ''DECLINED''])
     \<and> (case lr_limit args of None \<Rightarrow> True | Some n \<Rightarrow> 1 \<le> n \<and> n \<le> 100)
     \<and> (case lr_page args of None \<Rightarrow> True | Some n \<Rightarrow> 1 \<le> n)"

definition pull_requests_error :: "string \<Rightarrow> tool_result" where
  "pull_requests_error e =
     \<lparr>content = Text (''Error fetching pull requests: '' @ e), isError = True\<rparr>"

definition pull_requests_url :: "list_pull_requests_args \<Rightarrow> request" where
  "pull_requests_url args =
     List_PRs (case str_or_null (lr_state args) of None \<Rightarrow> ''OPEN'' | Some s \<Rightarrow> s)
       (num_or (lr_limit args) 50) (num_or (lr_page args) 1)
       (str_or_null (lr_target_branch args))"

definition summary :: "pull_request \<Rightarrow> pr_summary" where
  "summary pr =
     \<lparr>ps_id = pr_id pr,
      ps_title = pr_title pr,
      ps_description = pr_description pr,
      ps_state = pr_state pr,
      ps_author = pr_author pr,
      ps_created_on = pr_created_on pr,
      ps_updated_on = pr_updated_on pr,
      ps_source_branch = pr_source_branch pr,
      ps_destination_branch = pr_destination_branch pr,
      ps_html = pr_html pr\<rparr>"

definition list_pull_requests :: "net \<Rightarrow> list_pull_requests_args \<Rightarrow> tool_result \<times> request list" where
  "list_pull_requests net args =
     (case fetch net [] (pull_requests_url args) of
        (out, log) \<Rightarrow>
          (case out of
             Rejected e \<Rightarrow> (pull_requests_error e, log)
           | Resolved r \<Rightarrow>
               if \<not> ok r then (pull_requests_error (api_error r), log)
               else
                 (case json_body r of
                    Inl e \<Rightarrow> (pull_requests_error e, log)
                  | Inr (J_PR_Page data) \<Rightarrow>
                      (\<lparr>content = PR_List_Json
                           \<lparr>ls_total_count = pg_size data,
                            ls_page = num_or (lr_page args) 1,
                            ls_page_length = num_or (lr_limit args) 50,
                            ls_next = str_or_null (pg_next data),
                            ls_previous = str_or_null (pg_previous data),
                            ls_items = map summary (pg_values data)\<rparr>,
                        isError = False\<rparr>, log)
                  | Inr _ \<Rightarrow> (pull_requests_error wrong_shape, log))))"

text \<open>
  Modelled from the spec: the dispatch of a call by the server library, which is not in
  the sources. \<^verbatim>\<open>server.tool(name, description, schema, handler)\<close> registers the handler
  behind its schema; sections 4.5 and 7 have an argument outside its range rejected
  (\<^verbatim>\<open>InvalidArgument\<close>), "checked and reported before any network call". So the arguments
  of a call are parsed against the schema, the handler runs on arguments that conform,
  and on any others the call fails with the invalid-parameters error and the handler does
  not run.
\<close>

datatype call_outcome =
    Invalid_Params
  | Handled tool_result

definition call_list_pull_requests ::
  "net \<Rightarrow> list_pull_requests_args \<Rightarrow> call_outcome \<times> request list" where
  "call_list_pull_requests net args =
     (if list_pull_requests_schema args then
        (case list_pull_requests net args of (res, log) \<Rightarrow> (Handled res, log))
      else (Invalid_Params, []))"

section \<open>Comments\<close>

subsection \<open>\<^verbatim>\<open>add_pr_comment\<close>\<close>






subsection \<open>\<^verbatim>\<open>get_pr_comments\<close>\<close>





subsection \<open>The tools registered and the tools documented\<close>




section \<open>Notions used to state the properties\<close>

subsection \<open>The first \<^verbatim>\<open>#<digits>\<close> token of a message\<close>

text \<open>
  A token starts at position \<open>i\<close> when the character there is \<^verbatim>\<open>#\<close> and the next one
  is a decimal digit; the first token is the one at the least such position. The digits
  of a run denote the sum of their values weighted by powers of ten.
\<close>

definition token_at :: "string \<Rightarrow> nat \<Rightarrow> bool" where
  "token_at m i \<longleftrightarrow> Suc i < length m \<and> m ! i = CHR ''#'' \<and> is_digit (m ! Suc i)"

definition first_token :: "string \<Rightarrow> nat \<Rightarrow> bool" where
  "first_token m i \<longleftrightarrow> token_at m i \<and> (\<forall>j<i. \<not> token_at m j)"

definition decimal :: "string \<Rightarrow> nat" where
  "decimal ds = (\<Sum>k<length ds. digit_value (ds ! k) * 10 ^ (length ds - Suc k))"

subsection \<open>Commit lookups of \<^verbatim>\<open>list_pipelines\<close>\<close>

text \<open>
  The number of requests issued before the lookup of the \<open>i\<close>-th pipeline of the page:
  the page request and one lookup for each earlier pipeline that needs one.
\<close>

definition lookup_position :: "pipeline list \<Rightarrow> nat \<Rightarrow> nat" where
  "lookup_position ps i = Suc (length (filter needs_lookup (take i ps)))"

text \<open>A lookup fails when \<^verbatim>\<open>fetch\<close> throws or the response is not 2xx.\<close>

definition lookup_failed :: "fetch_outcome \<Rightarrow> bool" where
  "lookup_failed out \<longleftrightarrow> (case out of Rejected e \<Rightarrow> True | Resolved r \<Rightarrow> \<not> ok r)"

section \<open>Concrete inputs\<close>

text \<open>Small networks and arguments on which the theorems below are instantiated.\<close>

definition json_response :: "nat \<Rightarrow> string \<Rightarrow> json_body \<Rightarrow> response" where
  "json_response st txt j = \<lparr>status = st, statusText = txt, text_body = Inr [], json_body = Inr j\<rparr>"

definition text_response :: "nat \<Rightarrow> string \<Rightarrow> string \<Rightarrow> response" where
  "text_response st txt t =
     \<lparr>status = st, statusText = txt, text_body = Inr t, json_body = Inl ''SyntaxError''\<rparr>"

definition a_pipeline :: "string option \<Rightarrow> string option \<Rightarrow> pipeline" where
  "a_pipeline h m =
     \<lparr>pl_state = ''COMPLETED'', pl_created_on = ''2024-05-01'', pl_completed_on = ''2024-05-01'',
      pl_run_number = 7, pl_duration_in_seconds = 60,
      pl_target = Some \<lparr>tg_ref_name = ''main'', tg_commit = Some \<lparr>cr_hash = h, cr_message = m\<rparr>\<rparr>\<rparr>"

definition two_pipelines :: "pipeline list" where
  "two_pipelines =
     [a_pipeline (Some ''abc123'') None, a_pipeline (Some ''def456'') (Some ''Fix login bug #42'')]"

definition two_pipelines_data :: "pipeline page" where
  "two_pipelines_data =
     \<lparr>pg_size = 2, pg_next = None, pg_previous = None, pg_values = two_pipelines\<rparr>"

definition pipelines_page :: response where
  "pipelines_page = json_response 200 ''OK'' (J_Pipeline_Page two_pipelines_data)"

text \<open>The page request succeeds; every commit lookup is rejected.\<close>

definition pipelines_net :: net where
  "pipelines_net k q = (if k = 0 then Resolved pipelines_page else Rejected ''network down'')"

definition default_pipelines_args :: list_pipelines_args where
  "default_pipelines_args =
     \<lparr>lp_state = None, lp_limit = None, lp_page = None, lp_target_branch = None\<rparr>"

definition a_pipeline_out :: "string option \<Rightarrow> string option \<Rightarrow> number option \<Rightarrow> pipeline_out" where
  "a_pipeline_out h m n =
     \<lparr>po_pr_id = n, po_state = ''COMPLETED'', po_created_on = ''2024-05-01'',
      po_completed_on = ''2024-05-01'', po_run_number = 7, po_duration_in_seconds = 60,
      po_target = Some \<lparr>tg_ref_name = ''main'', tg_commit = Some \<lparr>cr_hash = h, cr_message = m\<rparr>\<rparr>\<rparr>"

definition two_pipelines_listing :: "pipeline_out listing" where
  "two_pipelines_listing =
     \<lparr>ls_total_count = 2, ls_page = 1, ls_page_length = 10, ls_next = None, ls_previous = None,
      ls_items = [a_pipeline_out (Some ''abc123'') None None,
                  a_pipeline_out (Some ''def456'') (Some ''Fix login bug #42'') (Some (Finite 42))]\<rparr>"

definition a_pull_request :: "int \<Rightarrow> pull_request" where
  "a_pull_request n =
     \<lparr>pr_id = n, pr_title = ''Add login'', pr_description = ''Adds the login form'',
      pr_state = ''OPEN'', pr_author = ''Ada'', pr_created_on = ''2024-05-01'',
      pr_updated_on = ''2024-05-02'', pr_source_branch = ''feature/login'',
      pr_destination_branch = ''main'', pr_html = ''https://bitbucket.org/w/r/pull-requests'',
      pr_reviewers = None\<rparr>"

definition a_commit :: "string \<Rightarrow> commit" where
  "a_commit h =
     \<lparr>c_hash = h, c_message = ''Fix login bug #42'', c_author_user = Some ''Ada'',
      c_author_raw = ''Ada <ada@example.org>'', c_date = ''2024-05-01''\<rparr>"

definition a_search_page :: "pull_request list \<Rightarrow> pull_request page" where
  "a_search_page prs =
     \<lparr>pg_size = int (length prs), pg_next = None, pg_previous = None, pg_values = prs\<rparr>"

text \<open>
  A network that answers by the kind of request: a pull request by id, the given search
  result, the commits \<^verbatim>\<open>c1\<close> and \<^verbatim>\<open>c2\<close> under the given status, and a diff for every commit
  but \<^verbatim>\<open>c1\<close>, whose diff request is answered with status 500.
\<close>

definition details_net :: "nat \<Rightarrow> pull_request list \<Rightarrow> net" where
  "details_net commits_status found k q =
     (case q of
        Get_PR n \<Rightarrow> Resolved (json_response 200 ''OK'' (J_PR (a_pull_request n)))
      | Search_PRs b \<Rightarrow> Resolved (json_response 200 ''OK'' (J_PR_Page (a_search_page found)))
      | Get_PR_Commits n \<Rightarrow>
          Resolved (json_response commits_status ''status text''
                      (J_Commits [a_commit ''c1'', a_commit ''c2'']))
      | Get_Commit_Diff h \<Rightarrow>
          (if h = ''c1'' then Resolved (text_response 500 ''Internal Server Error'' '''')
           else Resolved (text_response 200 ''OK'' ''diff --git a/f b/f''))
      | _ \<Rightarrow> Rejected ''no route'')"

definition details_args :: "string option \<Rightarrow> int option \<Rightarrow> bool option \<Rightarrow> get_pr_details_args" where
  "details_args b n d = \<lparr>gd_source_branch = b, gd_pr_id = n, gd_include_diff = d\<rparr>"

subsection \<open>Reading a result of \<^verbatim>\<open>get_pr_details\<close>\<close>

text \<open>The commit records in the \<^verbatim>\<open>commits\<close> list of a result, in order.\<close>

definition commit_records :: "tool_result \<Rightarrow> commit_data list" where
  "commit_records res =
     (case content res of
        PR_Details_Json m d \<Rightarrow>
          concat (map (\<lambda>x. case x of Commit_Data c \<Rightarrow> [c] | Commit_Error s \<Rightarrow> []) (pd_commits d))
      | _ \<Rightarrow> [])"

definition limit_args :: "string option \<Rightarrow> int option \<Rightarrow> int option \<Rightarrow> list_pull_requests_args" where
  "limit_args s n p = \<lparr>lr_state = s, lr_limit = n, lr_page = p, lr_target_branch = None\<rparr>"

section \<open>Properties of \<^verbatim>\<open>list_pipelines\<close>\<close>

subsection \<open>The regular expression finds the first token\<close>

lemma token_at_0: "token_at (c # cs) 0 \<longleftrightarrow> c = CHR ''#'' \<and> takeWhile is_digit cs \<noteq> []"
  by (cases cs) (auto simp: token_at_def)

lemma token_at_Suc: "token_at (c # cs) (Suc i) \<longleftrightarrow> token_at cs i"
  by (auto simp: token_at_def)

lemma match_pr_id_None: "(\<forall>i. \<not> token_at m i) \<Longrightarrow> match_pr_id m = None"
proof (induction m)
  case Nil
  then show ?case by simp
next
  case (Cons c cs)
  have "\<not> token_at (c # cs) 0" using Cons.prems by blast
  moreover have "\<forall>i. \<not> token_at cs i" using Cons.prems token_at_Suc by blast
  ultimately show ?case using Cons.IH by (simp add: token_at_0)
qed

lemma match_pr_id_first:
  "first_token m i \<Longrightarrow> match_pr_id m = Some (takeWhile is_digit (drop (Suc i) m))"
proof (induction m arbitrary: i)
  case Nil
  then show ?case by (simp add: first_token_def token_at_def)
next
  case (Cons c cs)
  show ?case
  proof (cases i)
    case 0
    then show ?thesis using Cons.prems by (simp add: first_token_def token_at_0)
  next
    case (Suc j)
    have n0: "\<not> token_at (c # cs) 0" using Cons.prems Suc by (auto simp: first_token_def)
    have "first_token cs j" using Cons.prems Suc
      by (auto simp: first_token_def token_at_Suc dest: spec[where x="Suc _"])
    then have "match_pr_id cs = Some (takeWhile is_digit (drop (Suc j) cs))" by (rule Cons.IH)
    then show ?thesis using n0 Suc by (auto simp: token_at_0)
  qed
qed

lemma mathInt_snoc: "mathInt (ds @ [d]) = 10 * mathInt ds + digit_value d"
  by (simp add: mathInt_def)

lemma mathInt_decimal: "mathInt ds = decimal ds"
proof (induction ds rule: rev_induct)
  case Nil
  then show ?case by (simp add: mathInt_def decimal_def)
next
  case (snoc d ds)
  have "decimal (ds @ [d])
        = (\<Sum>k<length ds. digit_value (ds ! k) * 10 ^ (length ds - k)) + digit_value d"
    by (simp add: decimal_def nth_append)
  also have "(\<Sum>k<length ds. digit_value (ds ! k) * 10 ^ (length ds - k))
           = (\<Sum>k<length ds. 10 * (digit_value (ds ! k) * 10 ^ (length ds - Suc k)))"
  proof (rule sum.cong)
    fix k assume "k \<in> {..<length ds}"
    then have "length ds - k = Suc (length ds - Suc k)" by auto
    then show "digit_value (ds ! k) * 10 ^ (length ds - k)
             = 10 * (digit_value (ds ! k) * 10 ^ (length ds - Suc k))" by simp
  qed simp
  also have "\<dots> = 10 * decimal ds" by (simp add: decimal_def sum_distrib_left)
  finally show ?case using snoc by (simp add: mathInt_snoc)
qed

subsection \<open>The number value of an integer\<close>

lemma to_double_safe:
  assumes "n < 2 ^ 53"
  shows "to_double n = Finite (int n)"
proof -
  have a: "n < 9007199254740992" using assms by simp
  have "(9007199254740992::nat) \<le> 2 ^ 1024" by simp
  then have "\<not> 2 ^ 1024 \<le> n" using a by linarith
  then show ?thesis using a by (simp add: to_double_def exponent.simps Let_def)
qed

lemma exponent_quotient_pos: "0 < n \<Longrightarrow> 0 < n div 2 ^ exponent n"
proof (induction n rule: exponent.induct)
  case (1 n)
  show ?case
  proof (cases "n < 9007199254740992")
    case True
    then show ?thesis using 1(2) by (simp add: exponent.simps)
  next
    case False
    then have e: "exponent n = Suc (exponent (n div 2))" by (simp add: exponent.simps)
    have "0 < n div 2" using False by simp
    then have "0 < n div 2 div 2 ^ exponent (n div 2)" using 1(1) False by simp
    then show ?thesis by (simp add: e div_mult2_eq)
  qed
qed

lemma to_double_overflow:
  assumes "2 ^ 1024 \<le> n"
  shows "to_double n = Infinity"
proof -
  let ?e = "exponent n"
  let ?q = "n div 2 ^ ?e"
  have pos: "0 < n"
    using assms by (metis gr0I not_less_eq_eq le_zero_eq power_not_zero zero_neq_numeral)
  have "(2::nat) ^ 1024 \<le> ?q * 2 ^ ?e"
  proof (cases "?e \<le> 1024")
    case True
    then have "(2::nat) ^ 1024 = 2 ^ (1024 - ?e) * 2 ^ ?e"
      by (simp flip: power_add)
    moreover have "2 ^ (1024 - ?e) \<le> ?q"
    proof -
      have "(2 ^ (1024 - ?e) * 2 ^ ?e) div 2 ^ ?e \<le> n div 2 ^ ?e"
        using assms calculation by (metis div_le_mono)
      then show ?thesis by simp
    qed
    ultimately show ?thesis by (metis mult_le_mono1)
  next
    case False
    then have "(2::nat) ^ 1024 \<le> 2 ^ ?e" by (intro power_increasing) auto
    moreover have "1 \<le> ?q" using exponent_quotient_pos [OF pos] by simp
    ultimately show ?thesis by (metis mult_le_mono mult_1)
  qed
  then have "2 ^ 1024 \<le> (if 2 ^ ?e < 2 * (n mod 2 ^ ?e) \<or> (2 * (n mod 2 ^ ?e) = 2 ^ ?e \<and> odd ?q)
                          then ?q + 1 else ?q) * 2 ^ ?e"
    by (auto intro: order_trans [where y = "?q * 2 ^ ?e"])
  then show ?thesis by (simp add: to_double_def Let_def)
qed

subsection \<open>The id of an entry is extracted from the message the entry carries\<close>

lemma target_message_set:
  "truthy_str (target_hash t) \<Longrightarrow> target_message (set_target_message t m) = m"
  by (auto simp: truthy_str_def target_hash_def target_message_def set_target_message_def
           split: option.splits)

lemma commit_lookup_message:
  "truthy_str (target_hash t) \<Longrightarrow> commit_lookup out t = (m, t') \<Longrightarrow> target_message t' = m"
  by (auto simp: commit_lookup_def target_message_set
           split: fetch_outcome.splits if_splits sum.splits json_body.splits)

lemma enrich_pipeline_pr_id:
  "enrich_pipeline net log p = (x, log') \<Longrightarrow>
   po_pr_id x = extract_pr_id (target_message (po_target x))"
  by (auto simp: enrich_pipeline_def pipeline_result_def needs_lookup_def fetch_def
           dest: commit_lookup_message split: if_splits prod.splits)

lemma enrich_pipelines_pr_id:
  "enrich_pipelines net log ps = (xs, log') \<Longrightarrow> x \<in> set xs \<Longrightarrow>
   po_pr_id x = extract_pr_id (target_message (po_target x))"
proof (induction ps arbitrary: log xs log')
  case Nil
  then show ?case by simp
next
  case (Cons p ps)
  obtain y l1 where y: "enrich_pipeline net log p = (y, l1)"
    by (cases "enrich_pipeline net log p")
  obtain ys l2 where ys: "enrich_pipelines net l1 ps = (ys, l2)"
    by (cases "enrich_pipelines net l1 ps")
  have xs: "xs = y # ys" using Cons.prems(1) y ys by simp
  show ?case
  proof (cases "x = y")
    case True
    then show ?thesis using y by (simp add: enrich_pipeline_pr_id)
  next
    case False
    then have "x \<in> set ys" using Cons.prems(2) xs by simp
    then show ?thesis using Cons.IH ys by blast
  qed
qed

lemma list_pipelines_pr_id:
  assumes "content (fst (list_pipelines net args)) = Pipelines_Json l"
    and "x \<in> set (ls_items l)"
  shows "po_pr_id x = extract_pr_id (target_message (po_target x))"
proof -
  from assms(1) obtain l0 ps log' where "enrich_pipelines net l0 ps = (ls_items l, log')"
    by (auto simp: list_pipelines_def Let_def pipelines_error_def
             split: prod.splits fetch_outcome.splits if_splits sum.splits json_body.splits)
  then show ?thesis using assms(2) by (rule enrich_pipelines_pr_id)
qed

lemma extract_pr_id_none: "extract_pr_id None = None"
  by (simp add: extract_pr_id_def)

lemma extract_first:
  "first_token m i \<Longrightarrow>
   extract_pr_id (Some m) = Some (to_double (decimal (takeWhile is_digit (drop (Suc i) m))))"
  by (simp add: extract_pr_id_def match_pr_id_first parseInt_def mathInt_decimal)

lemma extract_fix_login: "extract_pr_id (Some ''Fix login bug #42'') = Some (Finite 42)"
  by (simp add: extract_pr_id_def is_digit_def parseInt_def mathInt_def digit_value_def
        to_double_def exponent.simps Let_def)

lemma extract_both_referenced:
  "extract_pr_id (Some ''#7 and #12 both referenced'') = Some (Finite 7)"
  by (simp add: extract_pr_id_def is_digit_def parseInt_def mathInt_def digit_value_def
        to_double_def exponent.simps Let_def)

lemma two_pipelines_run:
  "list_pipelines pipelines_net default_pipelines_args
   = (\<lparr>content = Pipelines_Json two_pipelines_listing, isError = False\<rparr>,
      [pipelines_url default_pipelines_args, Get_Commit ''abc123''])"
  by (simp add: list_pipelines_def pipelines_net_def default_pipelines_args_def pipelines_url_def
       fetch_def pipelines_page_def two_pipelines_data_def json_response_def ok_def
       two_pipelines_def a_pipeline_def
       enrich_pipeline_def needs_lookup_def target_message_def target_hash_def truthy_str_def
       commitUrl_def str_of_def commit_lookup_def pipeline_result_def extract_fix_login
       extract_pr_id_none two_pipelines_listing_def a_pipeline_out_def
       num_or_def str_or_null_def)

text \<open>
  C1, as the code has it. Every entry of the listing that \<^verbatim>\<open>list_pipelines\<close> returns
  carries, as its \<^verbatim>\<open>pr_id\<close>, the id extracted from the commit message the entry ends up
  with (the one of the payload, or the one the lookup retrieved). The extraction gives
  \<^verbatim>\<open>null\<close> when there is no message, and when no position of the message holds \<^verbatim>\<open>#\<close>
  followed by a digit. Otherwise it takes the whole run of digits after the first such
  \<^verbatim>\<open>#\<close> and gives the JavaScript number of the decimal integer they denote: that integer
  when it is below \<open>2^53\<close>, the nearest double beyond, and from \<open>2^1024\<close> on
  \<^verbatim>\<open>Infinity\<close>, which the result text shows as \<^verbatim>\<open>null\<close>. \<^verbatim>\<open>"Fix login bug #42"\<close> gives
  42 and \<^verbatim>\<open>"#7 and #12 both referenced"\<close> gives 7.
\<close>

theorem pr_id_from_first_token:
  "(content (fst (list_pipelines net args)) = Pipelines_Json l \<longrightarrow> x \<in> set (ls_items l) \<longrightarrow>
      po_pr_id x = extract_pr_id (target_message (po_target x)))
   \<and> extract_pr_id None = None
   \<and> ((\<forall>j. \<not> token_at m j) \<longrightarrow> extract_pr_id (Some m) = None)
   \<and> (first_token m i \<longrightarrow>
        extract_pr_id (Some m) = Some (to_double (decimal (takeWhile is_digit (drop (Suc i) m)))))
   \<and> (first_token m i \<and> decimal (takeWhile is_digit (drop (Suc i) m)) < 2 ^ 53 \<longrightarrow>
        extract_pr_id (Some m)
        = Some (Finite (int (decimal (takeWhile is_digit (drop (Suc i) m))))))
   \<and> (first_token m i \<and> 2 ^ 1024 \<le> decimal (takeWhile is_digit (drop (Suc i) m)) \<longrightarrow>
        extract_pr_id (Some m) = Some Infinity \<and> written (extract_pr_id (Some m)) = None)
   \<and> extract_pr_id (Some ''Fix login bug #42'') = Some (Finite 42)
   \<and> extract_pr_id (Some ''#7 and #12 both referenced'') = Some (Finite 7)"
proof (intro conjI impI)
  assume "content (fst (list_pipelines net args)) = Pipelines_Json l" and "x \<in> set (ls_items l)"
  then show "po_pr_id x = extract_pr_id (target_message (po_target x))"
    by (rule list_pipelines_pr_id)
next
  show "extract_pr_id None = None" by (simp add: extract_pr_id_def)
next
  assume "\<forall>j. \<not> token_at m j"
  then show "extract_pr_id (Some m) = None" by (simp add: extract_pr_id_def match_pr_id_None)
next
  assume "first_token m i"
  then show "extract_pr_id (Some m)
             = Some (to_double (decimal (takeWhile is_digit (drop (Suc i) m))))"
    by (rule extract_first)
next
  assume a: "first_token m i \<and> decimal (takeWhile is_digit (drop (Suc i) m)) < 2 ^ 53"
  show "extract_pr_id (Some m)
        = Some (Finite (int (decimal (takeWhile is_digit (drop (Suc i) m)))))"
    unfolding extract_first [OF a [THEN conjunct1]] to_double_safe [OF a [THEN conjunct2]] ..
next
  assume a: "first_token m i \<and> 2 ^ 1024 \<le> decimal (takeWhile is_digit (drop (Suc i) m))"
  show inf: "extract_pr_id (Some m) = Some Infinity"
    unfolding extract_first [OF a [THEN conjunct1]] to_double_overflow [OF a [THEN conjunct2]] ..
  show "written (extract_pr_id (Some m)) = None"
    by (simp only: inf) (simp add: written_def)
next
  show "extract_pr_id (Some ''Fix login bug #42'') = Some (Finite 42)" by (rule extract_fix_login)
next
  show "extract_pr_id (Some ''#7 and #12 both referenced'') = Some (Finite 7)"
    by (rule extract_both_referenced)
qed

theorem pr_id_from_first_token_witness:
  "content (fst (list_pipelines pipelines_net default_pipelines_args))
     = Pipelines_Json two_pipelines_listing
   \<and> a_pipeline_out (Some ''def456'') (Some ''Fix login bug #42'') (Some (Finite 42))
       \<in> set (ls_items two_pipelines_listing)
   \<and> extract_pr_id (Some ''Fix login bug #42'') = Some (Finite 42)
   \<and> (\<forall>j. \<not> token_at ''no token # 1'' j) \<and> extract_pr_id (Some ''no token # 1'') = None
   \<and> first_token ''see #12, #3'' 4
   \<and> decimal (takeWhile is_digit (drop (Suc 4) ''see #12, #3'')) = 12
   \<and> (12::nat) < 2 ^ 53
   \<and> extract_pr_id (Some ''see #12, #3'') = Some (Finite 12)
   \<and> first_token ''#1000000000000000000000000000000000000000000000000000000000000000000000000000000000000000000000000000000000000000000000000000000000000000000000000000000000000000000000000000000000000000000000000000000000000000000000000000000000000000000000000000000000000000000000000000000000000000000000000000000000000000000000'' 0
   \<and> 2 ^ 1024 \<le> decimal (takeWhile is_digit (drop (Suc 0) ''#1000000000000000000000000000000000000000000000000000000000000000000000000000000000000000000000000000000000000000000000000000000000000000000000000000000000000000000000000000000000000000000000000000000000000000000000000000000000000000000000000000000000000000000000000000000000000000000000000000000000000000000000''))
   \<and> extract_pr_id (Some ''#1000000000000000000000000000000000000000000000000000000000000000000000000000000000000000000000000000000000000000000000000000000000000000000000000000000000000000000000000000000000000000000000000000000000000000000000000000000000000000000000000000000000000000000000000000000000000000000000000000000000000000000000'') = Some Infinity
   \<and> written (extract_pr_id (Some ''#1000000000000000000000000000000000000000000000000000000000000000000000000000000000000000000000000000000000000000000000000000000000000000000000000000000000000000000000000000000000000000000000000000000000000000000000000000000000000000000000000000000000000000000000000000000000000000000000000000000000000000000000'')) = None"
proof -
  have run: "content (fst (list_pipelines pipelines_net default_pipelines_args))
             = Pipelines_Json two_pipelines_listing"
    by (simp add: two_pipelines_run)
  have mem: "a_pipeline_out (Some ''def456'') (Some ''Fix login bug #42'') (Some (Finite 42))
             \<in> set (ls_items two_pipelines_listing)"
    by (simp add: two_pipelines_listing_def)
  have none: "\<forall>j. \<not> token_at ''no token # 1'' j"
  proof (intro allI notI)
    fix j assume "token_at ''no token # 1'' j"
    then have "j < 12" and "''no token # 1'' ! j = CHR ''#''" and "is_digit (''no token # 1'' ! Suc j)"
      by (simp_all add: token_at_def)
    then show False
      by (simp add: is_digit_def nth_Cons' split: if_splits)
  qed
  have first: "first_token ''see #12, #3'' 4"
    by (simp add: first_token_def token_at_def is_digit_def eval_nat_numeral All_less_Suc)
  have dec: "decimal (takeWhile is_digit (drop (Suc 4) ''see #12, #3'')) = 12"
    by (simp add: is_digit_def digit_value_def mathInt_def flip: mathInt_decimal)
  have small: "(12::nat) < 2 ^ 53" by simp
  have big_first: "first_token ''#1000000000000000000000000000000000000000000000000000000000000000000000000000000000000000000000000000000000000000000000000000000000000000000000000000000000000000000000000000000000000000000000000000000000000000000000000000000000000000000000000000000000000000000000000000000000000000000000000000000000000000000000'' 0"
    by (simp add: first_token_def token_at_def is_digit_def)
  have big: "2 ^ 1024 \<le> decimal (takeWhile is_digit (drop (Suc 0) ''#1000000000000000000000000000000000000000000000000000000000000000000000000000000000000000000000000000000000000000000000000000000000000000000000000000000000000000000000000000000000000000000000000000000000000000000000000000000000000000000000000000000000000000000000000000000000000000000000000000000000000000000000''))"
    by (simp add: is_digit_def digit_value_def mathInt_def flip: mathInt_decimal)
  note inst = pr_id_from_first_token
    [of pipelines_net default_pipelines_args two_pipelines_listing
        "a_pipeline_out (Some ''def456'') (Some ''Fix login bug #42'') (Some (Finite 42))"]
  have "po_pr_id (a_pipeline_out (Some ''def456'') (Some ''Fix login bug #42'') (Some (Finite 42)))
        = extract_pr_id (target_message
            (po_target (a_pipeline_out (Some ''def456'') (Some ''Fix login bug #42'')
                          (Some (Finite 42)))))"
    using inst [of "''no token # 1''" 0, THEN conjunct1, rule_format, OF run mem] .
  then have a: "extract_pr_id (Some ''Fix login bug #42'') = Some (Finite 42)"
    by (simp add: a_pipeline_out_def target_message_def)
  have b: "extract_pr_id (Some ''no token # 1'') = None"
    using inst [of "''no token # 1''" 0, THEN conjunct2, THEN conjunct2, THEN conjunct1,
                THEN mp, OF none] .
  have "extract_pr_id (Some ''see #12, #3'')
        = Some (Finite (int (decimal (takeWhile is_digit (drop (Suc 4) ''see #12, #3'')))))"
    using inst [of "''see #12, #3''" 4, THEN conjunct2, THEN conjunct2, THEN conjunct2,
                THEN conjunct2, THEN conjunct1, THEN mp] first dec small by simp
  then have c: "extract_pr_id (Some ''see #12, #3'') = Some (Finite 12)"
    by (simp only: dec) simp
  have d: "extract_pr_id (Some ''#1000000000000000000000000000000000000000000000000000000000000000000000000000000000000000000000000000000000000000000000000000000000000000000000000000000000000000000000000000000000000000000000000000000000000000000000000000000000000000000000000000000000000000000000000000000000000000000000000000000000000000000000'') = Some Infinity
           \<and> written (extract_pr_id (Some ''#1000000000000000000000000000000000000000000000000000000000000000000000000000000000000000000000000000000000000000000000000000000000000000000000000000000000000000000000000000000000000000000000000000000000000000000000000000000000000000000000000000000000000000000000000000000000000000000000000000000000000000000000'')) = None"
    using inst [of "''#1000000000000000000000000000000000000000000000000000000000000000000000000000000000000000000000000000000000000000000000000000000000000000000000000000000000000000000000000000000000000000000000000000000000000000000000000000000000000000000000000000000000000000000000000000000000000000000000000000000000000000000000''" 0, THEN conjunct2, THEN conjunct2, THEN conjunct2,
                THEN conjunct2, THEN conjunct2, THEN conjunct1, THEN mp] big_first big
    by blast
  show ?thesis
    using run mem a none b first dec small c big_first big d [THEN conjunct1] d [THEN conjunct2]
    by (intro conjI)
qed

text \<open>
  The run \<^verbatim>\<open>9007199254740993\<close> denotes \<open>2^53 + 1\<close>, which is no double: the id is the
  even neighbour \<open>2^53\<close>, not the integer the digits denote.
\<close>

theorem pr_id_beyond_safe_integers_is_rounded:
  "decimal ''9007199254740993'' = 9007199254740993
   \<and> extract_pr_id (Some ''Merged #9007199254740993'') = Some (Finite 9007199254740992)"
  by (simp add: is_digit_def digit_value_def mathInt_def extract_pr_id_def parseInt_def
        to_double_def exponent.simps Let_def flip: mathInt_decimal)

subsection \<open>Each entry depends on the network through its own lookup only\<close>

lemma enrich_pipeline_log:
  "snd (enrich_pipeline net log p) = log @ map commitUrl (filter needs_lookup [p])"
  by (simp add: enrich_pipeline_def fetch_def split: prod.splits)

lemma enrich_pipeline_fst:
  "fst (enrich_pipeline net log p) =
     (if needs_lookup p then
        (case commit_lookup (net (length log) (commitUrl p)) (pl_target p) of
           (m, t) \<Rightarrow> pipeline_result p m t)
      else pipeline_result p (target_message (pl_target p)) (pl_target p))"
  by (simp add: enrich_pipeline_def fetch_def split: prod.splits)

lemma enrich_pipelines_Cons:
  "enrich_pipelines net log (p # ps) =
     (fst (enrich_pipeline net log p)
        # fst (enrich_pipelines net (snd (enrich_pipeline net log p)) ps),
      snd (enrich_pipelines net (snd (enrich_pipeline net log p)) ps))"
  by (simp split: prod.splits)

lemma enrich_pipelines_log:
  "snd (enrich_pipelines net log ps) = log @ map commitUrl (filter needs_lookup ps)"
proof (induction ps arbitrary: log)
  case Nil
  then show ?case by simp
next
  case (Cons p ps)
  show ?case
    by (simp add: enrich_pipelines_Cons Cons.IH enrich_pipeline_log del: enrich_pipelines.simps)
qed

lemma enrich_pipelines_length: "length (fst (enrich_pipelines net log ps)) = length ps"
  by (induction ps arbitrary: log)
     (simp_all add: enrich_pipelines_Cons del: enrich_pipelines.simps(2))

lemma enrich_pipelines_nth:
  "i < length ps \<Longrightarrow>
   fst (enrich_pipelines net log ps) ! i
   = fst (enrich_pipeline net (log @ map commitUrl (filter needs_lookup (take i ps))) (ps ! i))"
proof (induction ps arbitrary: log i)
  case Nil
  then show ?case by simp
next
  case (Cons p ps)
  show ?case
  proof (cases i)
    case 0
    then show ?thesis by (simp add: enrich_pipelines_Cons del: enrich_pipelines.simps)
  next
    case (Suc j)
    then have "j < length ps" using Cons.prems by simp
    then show ?thesis using Suc Cons.IH [of j "snd (enrich_pipeline net log p)"]
      by (simp add: enrich_pipelines_Cons enrich_pipeline_log del: enrich_pipelines.simps)
  qed
qed

lemma commit_lookup_failed:
  "lookup_failed out \<Longrightarrow> commit_lookup out t = (target_message t, t)"
  by (auto simp: lookup_failed_def commit_lookup_def split: fetch_outcome.splits)

lemma extract_pr_id_falsy: "\<not> truthy_str m \<Longrightarrow> extract_pr_id m = None"
  by (auto simp: truthy_str_def extract_pr_id_def split: option.splits)

lemma filter_take_less:
  assumes "i < j" and "j \<le> length ps" and "P (ps ! i)"
  shows "length (filter P (take i ps)) < length (filter P (take j ps))"
proof -
  have "i < length (take j ps)" using assms(1,2) by simp
  then have "take j ps = take i (take j ps) @ take j ps ! i # drop (Suc i) (take j ps)"
    by (rule id_take_nth_drop)
  then have "take j ps = take i ps @ ps ! i # drop (Suc i) (take j ps)"
    using assms(1) by (simp add: min_def)
  then have "filter P (take j ps)
             = filter P (take i ps) @ ps ! i # filter P (drop (Suc i) (take j ps))"
    using assms(3) by (metis filter.simps(2) filter_append)
  then show ?thesis by simp
qed

lemma lookup_position_inj:
  assumes "i < length ps" and "j < length ps" and "needs_lookup (ps ! i)"
    and "needs_lookup (ps ! j)" and "i \<noteq> j"
  shows "lookup_position ps i \<noteq> lookup_position ps j"
proof (cases "i < j")
  case True
  then show ?thesis using filter_take_less [of i j ps needs_lookup] assms
    by (simp add: lookup_position_def)
next
  case False
  then have "j < i" using assms(5) by simp
  then show ?thesis using filter_take_less [of j i ps needs_lookup] assms
    by (simp add: lookup_position_def)
qed

lemma lookup_position_length:
  "length ([q] @ map commitUrl (filter needs_lookup (take i ps))) = lookup_position ps i"
  by (simp add: lookup_position_def)

text \<open>The run of the handler when the page request is answered with a page.\<close>

lemma list_pipelines_page:
  assumes "net 0 (pipelines_url args) = Resolved r" and "ok r"
    and "json_body r = Inr (J_Pipeline_Page data)"
  shows "list_pipelines net args =
     (\<lparr>content = Pipelines_Json
          \<lparr>ls_total_count = pg_size data,
           ls_page = num_or (lp_page args) 1,
           ls_page_length = num_or (lp_limit args) 10,
           ls_next = str_or_null (pg_next data),
           ls_previous = str_or_null (pg_previous data),
           ls_items = fst (enrich_pipelines net [pipelines_url args] (pg_values data))\<rparr>,
        isError = False\<rparr>,
      [pipelines_url args] @ map commitUrl (filter needs_lookup (pg_values data)))"
  using assms enrich_pipelines_log [of net "[pipelines_url args]" "pg_values data"]
  by (auto simp: list_pipelines_def fetch_def Let_def split: prod.splits)

lemma entry_at:
  assumes "i < length ps"
  shows "fst (enrich_pipelines net [q] ps) ! i =
     (if needs_lookup (ps ! i) then
        (case commit_lookup (net (lookup_position ps i) (commitUrl (ps ! i))) (pl_target (ps ! i)) of
           (m, t) \<Rightarrow> pipeline_result (ps ! i) m t)
      else pipeline_result (ps ! i) (target_message (pl_target (ps ! i))) (pl_target (ps ! i)))"
  using enrich_pipelines_nth [OF assms, of net "[q]"] lookup_position_length [of q i ps]
  by (simp only: enrich_pipeline_fst)

lemma entry_at_cong:
  assumes "i < length ps" and "j < length ps" and "j \<noteq> i" and "needs_lookup (ps ! i)"
    and "\<forall>k q. k \<noteq> lookup_position ps i \<longrightarrow> net' k q = net k q"
  shows "fst (enrich_pipelines net' [q] ps) ! j = fst (enrich_pipelines net [q] ps) ! j"
proof (cases "needs_lookup (ps ! j)")
  case True
  then have "lookup_position ps j \<noteq> lookup_position ps i"
    using lookup_position_inj [of j ps i] assms by simp
  then have "net' (lookup_position ps j) (commitUrl (ps ! j))
           = net (lookup_position ps j) (commitUrl (ps ! j))"
    using assms(5) by simp
  then show ?thesis by (simp add: entry_at [OF assms(2)])
next
  case False
  then show ?thesis by (simp add: entry_at [OF assms(2)])
qed

lemma lookup_in_log:
  assumes "i < length ps" and "needs_lookup (ps ! i)"
  shows "lookup_position ps i < length ([q] @ map commitUrl (filter needs_lookup ps))
       \<and> ([q] @ map commitUrl (filter needs_lookup ps)) ! lookup_position ps i = commitUrl (ps ! i)"
proof -
  have ps: "ps = take i ps @ ps ! i # drop (Suc i) ps"
    using assms(1) by (rule id_take_nth_drop)
  have "filter needs_lookup ps
        = filter needs_lookup (take i ps) @ ps ! i # filter needs_lookup (drop (Suc i) ps)"
    using assms(2) by (metis ps filter.simps(2) filter_append)
  then have "[q] @ map commitUrl (filter needs_lookup ps)
        = ([q] @ map commitUrl (filter needs_lookup (take i ps)))
          @ commitUrl (ps ! i) # map commitUrl (filter needs_lookup (drop (Suc i) ps))"
    by simp
  then show ?thesis
    using lookup_position_length [of q i ps]
    by (metis length_append length_Cons nth_append_length less_add_Suc1 add_Suc_right)
qed

text \<open>
  C8. When the page request succeeds, a pipeline of the page whose payload has no
  (non-empty) commit message but a (non-empty) commit hash gets a commit-lookup request,
  issued at \<open>lookup_position\<close>. If that lookup is rejected or answered with a non-2xx
  status, the handler still succeeds and returns every pipeline; the entry of this
  pipeline has a \<^verbatim>\<open>null\<close> \<^verbatim>\<open>pr_id\<close>, the target of the payload unchanged and so no
  commit message; and the entries of all other pipelines, and the requests issued, are
  the same whatever the network answers to this lookup.
\<close>

theorem failed_lookup_is_swallowed:
  assumes "net 0 (pipelines_url args) = Resolved r" and "ok r"
    and "json_body r = Inr (J_Pipeline_Page data)"
    and "i < length (pg_values data)" and "needs_lookup (pg_values data ! i)"
  shows "\<exists>l log. list_pipelines net args = (\<lparr>content = Pipelines_Json l, isError = False\<rparr>, log)
     \<and> length (ls_items l) = length (pg_values data)
     \<and> lookup_position (pg_values data) i < length log
     \<and> log ! lookup_position (pg_values data) i = commitUrl (pg_values data ! i)
     \<and> (lookup_failed (net (lookup_position (pg_values data) i) (commitUrl (pg_values data ! i)))
          \<longrightarrow> po_pr_id (ls_items l ! i) = None
            \<and> po_target (ls_items l ! i) = pl_target (pg_values data ! i)
            \<and> \<not> truthy_str (target_message (po_target (ls_items l ! i)))
            \<and> (\<forall>net'. (\<forall>k q. k \<noteq> lookup_position (pg_values data) i \<longrightarrow> net' k q = net k q)
                  \<longrightarrow> (\<exists>l'. list_pipelines net' args
                              = (\<lparr>content = Pipelines_Json l', isError = False\<rparr>, log)
                         \<and> (\<forall>j<length (pg_values data). j \<noteq> i
                               \<longrightarrow> ls_items l' ! j = ls_items l ! j))))"
proof -
  let ?ps = "pg_values data"
  let ?q = "pipelines_url args"
  let ?pos = "lookup_position ?ps i"
  let ?l = "\<lambda>n. \<lparr>ls_total_count = pg_size data,
           ls_page = num_or (lp_page args) 1,
           ls_page_length = num_or (lp_limit args) 10,
           ls_next = str_or_null (pg_next data),
           ls_previous = str_or_null (pg_previous data),
           ls_items = fst (enrich_pipelines n [?q] ?ps)\<rparr>"
  let ?log = "[?q] @ map commitUrl (filter needs_lookup ?ps)"
  have run: "list_pipelines net args = (\<lparr>content = Pipelines_Json (?l net), isError = False\<rparr>, ?log)"
    using assms(1-3) by (rule list_pipelines_page)
  have len: "length (ls_items (?l net)) = length ?ps"
    by (simp add: enrich_pipelines_length)
  have issued: "?pos < length ?log \<and> ?log ! ?pos = commitUrl (?ps ! i)"
    using assms(4,5) by (rule lookup_in_log)
  have swallowed: "po_pr_id (ls_items (?l net) ! i) = None
            \<and> po_target (ls_items (?l net) ! i) = pl_target (?ps ! i)
            \<and> \<not> truthy_str (target_message (po_target (ls_items (?l net) ! i)))
            \<and> (\<forall>net'. (\<forall>k q. k \<noteq> ?pos \<longrightarrow> net' k q = net k q)
                  \<longrightarrow> (\<exists>l'. list_pipelines net' args
                              = (\<lparr>content = Pipelines_Json l', isError = False\<rparr>, ?log)
                         \<and> (\<forall>j<length ?ps. j \<noteq> i \<longrightarrow> ls_items l' ! j = ls_items (?l net) ! j)))"
    if failed: "lookup_failed (net ?pos (commitUrl (?ps ! i)))"
  proof (intro conjI allI impI)
    have entry: "ls_items (?l net) ! i
                 = pipeline_result (?ps ! i) (target_message (pl_target (?ps ! i))) (pl_target (?ps ! i))"
      using assms(5) failed by (simp add: entry_at [OF assms(4)] commit_lookup_failed)
    have falsy: "\<not> truthy_str (target_message (pl_target (?ps ! i)))"
      using assms(5) by (simp add: needs_lookup_def)
    show "po_pr_id (ls_items (?l net) ! i) = None"
      using falsy by (simp only: entry) (simp add: pipeline_result_def extract_pr_id_falsy)
    show "po_target (ls_items (?l net) ! i) = pl_target (?ps ! i)"
      by (simp only: entry) (simp add: pipeline_result_def)
    then show "\<not> truthy_str (target_message (po_target (ls_items (?l net) ! i)))"
      using falsy by simp
  next
    fix net'
    assume same: "\<forall>k q. k \<noteq> ?pos \<longrightarrow> net' k q = net k q"
    have "0 \<noteq> ?pos" by (simp add: lookup_position_def)
    then have "net' 0 ?q = Resolved r" using same assms(1) by metis
    then have run': "list_pipelines net' args
        = (\<lparr>content = Pipelines_Json (?l net'), isError = False\<rparr>, ?log)"
      using assms(2,3) by (rule list_pipelines_page)
    have "\<forall>j<length ?ps. j \<noteq> i \<longrightarrow> ls_items (?l net') ! j = ls_items (?l net) ! j"
      using entry_at_cong [OF assms(4) _ _ assms(5) same] by simp
    then show "\<exists>l'. list_pipelines net' args
                  = (\<lparr>content = Pipelines_Json l', isError = False\<rparr>, ?log)
             \<and> (\<forall>j<length ?ps. j \<noteq> i \<longrightarrow> ls_items l' ! j = ls_items (?l net) ! j)"
      using run' by blast
  qed
  show ?thesis
    using run len issued swallowed by blast
qed

theorem failed_lookup_is_swallowed_witness:
  "pipelines_net 0 (pipelines_url default_pipelines_args) = Resolved pipelines_page
   \<and> ok pipelines_page
   \<and> json_body pipelines_page = Inr (J_Pipeline_Page two_pipelines_data)
   \<and> 0 < length (pg_values two_pipelines_data)
   \<and> needs_lookup (pg_values two_pipelines_data ! 0)
   \<and> lookup_position (pg_values two_pipelines_data) 0 = 1
   \<and> lookup_failed (pipelines_net 1 (commitUrl (pg_values two_pipelines_data ! 0)))
   \<and> (\<exists>l log. list_pipelines pipelines_net default_pipelines_args
                 = (\<lparr>content = Pipelines_Json l, isError = False\<rparr>, log)
        \<and> length (ls_items l) = 2
        \<and> log ! 1 = Get_Commit ''abc123''
        \<and> po_pr_id (ls_items l ! 0) = None
        \<and> \<not> truthy_str (target_message (po_target (ls_items l ! 0))))"
proof -
  have h1: "pipelines_net 0 (pipelines_url default_pipelines_args) = Resolved pipelines_page"
    by (simp add: pipelines_net_def)
  have h2: "ok pipelines_page"
    by (simp add: pipelines_page_def json_response_def ok_def)
  have h3: "json_body pipelines_page = Inr (J_Pipeline_Page two_pipelines_data)"
    by (simp add: pipelines_page_def json_response_def)
  have h4: "0 < length (pg_values two_pipelines_data)"
    by (simp add: two_pipelines_data_def two_pipelines_def)
  have h5: "needs_lookup (pg_values two_pipelines_data ! 0)"
    by (simp add: two_pipelines_data_def two_pipelines_def a_pipeline_def needs_lookup_def
         target_message_def target_hash_def truthy_str_def)
  have pos: "lookup_position (pg_values two_pipelines_data) 0 = 1"
    by (simp add: lookup_position_def)
  have url: "commitUrl (pg_values two_pipelines_data ! 0) = Get_Commit ''abc123''"
    by (simp add: two_pipelines_data_def two_pipelines_def a_pipeline_def commitUrl_def
         target_hash_def str_of_def)
  have h6: "lookup_failed (pipelines_net 1 (commitUrl (pg_values two_pipelines_data ! 0)))"
    by (simp add: pipelines_net_def lookup_failed_def)
  have len: "length (pg_values two_pipelines_data) = 2"
    by (simp add: two_pipelines_data_def two_pipelines_def)
  from failed_lookup_is_swallowed
    [of pipelines_net default_pipelines_args pipelines_page two_pipelines_data 0,
     OF h1 h2 h3 h4 h5] h6
  have "\<exists>l log. list_pipelines pipelines_net default_pipelines_args
                 = (\<lparr>content = Pipelines_Json l, isError = False\<rparr>, log)
        \<and> length (ls_items l) = 2
        \<and> log ! 1 = Get_Commit ''abc123''
        \<and> po_pr_id (ls_items l ! 0) = None
        \<and> \<not> truthy_str (target_message (po_target (ls_items l ! 0)))"
    unfolding pos url len by blast
  then show ?thesis using h1 h2 h3 h4 h5 pos h6 by (intro conjI)
qed

section \<open>Properties of \<^verbatim>\<open>get_pr_details\<close>\<close>

subsection \<open>The requests the handler issues\<close>

lemma resolve_pr_log:
  "snd (resolve_pr net log args)
   = log @ [if truthy_num (gd_pr_id args) then Get_PR (num_or (gd_pr_id args) 0)
            else Search_PRs (str_of (gd_source_branch args))]"
  by (auto simp: resolve_pr_def fetch_def
           split: fetch_outcome.splits sum.splits json_body.splits list.splits)

lemma commitData_log:
  "snd (commitData net inc log c) = log @ (if inc then [Get_Commit_Diff (c_hash c)] else [])"
  by (simp add: commitData_def fetch_def)

lemma commitData_fst:
  "fst (commitData net inc log c) =
     \<lparr>cd_hash = c_hash c, cd_message = c_message c, cd_author = commit_author c,
      cd_date = c_date c,
      cd_diff = (if inc then Some (JStr (commit_diff (net (length log) (Get_Commit_Diff (c_hash c)))))
                 else None)\<rparr>"
  by (simp add: commitData_def fetch_def)

lemma commit_loop_Cons:
  "commit_loop net inc log (c # cs) =
     (fst (commitData net inc log c) # fst (commit_loop net inc (snd (commitData net inc log c)) cs),
      snd (commit_loop net inc (snd (commitData net inc log c)) cs))"
  by (simp split: prod.splits)

lemma commit_loop_log:
  "snd (commit_loop net inc log cs)
   = log @ (if inc then map (\<lambda>c. Get_Commit_Diff (c_hash c)) cs else [])"
proof (induction cs arbitrary: log)
  case Nil
  then show ?case by simp
next
  case (Cons c cs)
  show ?case by (simp add: commit_loop_Cons Cons.IH commitData_log del: commit_loop.simps)
qed

lemma commit_loop_length: "length (fst (commit_loop net inc log cs)) = length cs"
  by (induction cs arbitrary: log) (simp_all add: commit_loop_Cons del: commit_loop.simps(2))

lemma commit_loop_nth:
  "i < length cs \<Longrightarrow>
   fst (commit_loop net inc log cs) ! i
   = fst (commitData net inc
            (log @ (if inc then map (\<lambda>c. Get_Commit_Diff (c_hash c)) (take i cs) else []))
            (cs ! i))"
proof (induction cs arbitrary: log i)
  case Nil
  then show ?case by simp
next
  case (Cons c cs)
  show ?case
  proof (cases i)
    case 0
    then show ?thesis by (simp add: commit_loop_Cons del: commit_loop.simps)
  next
    case (Suc j)
    then have "j < length cs" using Cons.prems by simp
    then show ?thesis using Suc Cons.IH [of j "snd (commitData net inc log c)"]
      by (simp add: commit_loop_Cons commitData_log del: commit_loop.simps)
  qed
qed

lemma pr_with_commits_log:
  "\<exists>rest. snd (pr_with_commits net log args pr) = log @ Get_PR_Commits (pr_id pr) # rest
        \<and> (\<forall>q\<in>set rest. \<exists>h. q = Get_Commit_Diff h)"
proof -
  have loop: "snd (commit_loop net inc (log @ [Get_PR_Commits (pr_id pr)]) cs)
        = log @ Get_PR_Commits (pr_id pr)
            # (if inc then map (\<lambda>c. Get_Commit_Diff (c_hash c)) cs else [])" for inc cs
    by (simp add: commit_loop_log)
  show ?thesis
  proof (cases "net (length log) (Get_PR_Commits (pr_id pr))")
    case (Rejected e)
    then show ?thesis by (simp add: pr_with_commits_def fetch_def)
  next
    case (Resolved r)
    show ?thesis
    proof (cases "ok r")
      case False
      then show ?thesis using Resolved by (simp add: pr_with_commits_def fetch_def)
    next
      case True
      show ?thesis
      proof (cases "json_body r")
        case (Inl e)
        then show ?thesis using Resolved True by (simp add: pr_with_commits_def fetch_def)
      next
        case (Inr j)
        show ?thesis
        proof (cases j)
          case (J_Commits cs)
          have "snd (pr_with_commits net log args pr)
                = snd (commit_loop net (gd_include_diff args = Some True)
                         (log @ [Get_PR_Commits (pr_id pr)]) cs)"
            using Resolved True Inr J_Commits
            by (simp add: pr_with_commits_def fetch_def split: prod.splits)
          then show ?thesis by (auto simp: loop)
        qed (use Resolved True Inr in \<open>simp_all add: pr_with_commits_def fetch_def\<close>)
      qed
    qed
  qed
qed

lemma details_error_not_invalid: "details_error e \<noteq> invalid_argument"
  by (simp add: details_error_def invalid_argument_def)

lemma not_found_not_invalid: "not_found b \<noteq> invalid_argument"
  by (simp add: not_found_def invalid_argument_def)

lemma details_result_not_invalid: "details_result args pr cs \<noteq> invalid_argument"
  by (simp add: details_result_def invalid_argument_def)

lemma pr_with_commits_not_invalid: "fst (pr_with_commits net log args pr) \<noteq> invalid_argument"
  by (auto simp: pr_with_commits_def fetch_def details_error_not_invalid
        details_result_not_invalid
        split: fetch_outcome.splits sum.splits json_body.splits prod.splits)

lemma resolve_pr_not_invalid: "fst (resolve_pr net log args) \<noteq> Returned invalid_argument"
  by (auto simp: resolve_pr_def fetch_def not_found_not_invalid
        split: fetch_outcome.splits sum.splits json_body.splits list.splits)

text \<open>
  When the arguments pass the check, the handler issues the resolving request first,
  then at most the commits request and diff requests, and its result is not the
  invalid-argument result.
\<close>

lemma get_pr_details_proceeds:
  assumes "truthy_str (gd_source_branch args) \<or> truthy_num (gd_pr_id args)"
  shows "fst (get_pr_details net args) \<noteq> invalid_argument
     \<and> (\<exists>rest. snd (get_pr_details net args)
            = (if truthy_num (gd_pr_id args) then Get_PR (num_or (gd_pr_id args) 0)
               else Search_PRs (str_of (gd_source_branch args))) # rest
          \<and> (\<forall>q\<in>set rest. (\<exists>n. q = Get_PR_Commits n) \<or> (\<exists>h. q = Get_Commit_Diff h)))"
proof -
  let ?first = "if truthy_num (gd_pr_id args) then Get_PR (num_or (gd_pr_id args) 0)
                else Search_PRs (str_of (gd_source_branch args))"
  have log0: "snd (resolve_pr net [] args) = [?first]"
    using resolve_pr_log [of net "[]" args] by simp
  show ?thesis
  proof (cases "fst (resolve_pr net [] args)")
    case (Thrown e)
    then have "get_pr_details net args = (details_error e, [?first])"
      using assms log0 by (cases "resolve_pr net [] args") (auto simp: get_pr_details_def)
    then show ?thesis by (simp add: details_error_not_invalid)
  next
    case (Returned res)
    then have "get_pr_details net args = (res, [?first])"
      using assms log0 by (cases "resolve_pr net [] args") (auto simp: get_pr_details_def)
    moreover have "res \<noteq> invalid_argument"
      using Returned resolve_pr_not_invalid [of net "[]" args] by auto
    ultimately show ?thesis by simp
  next
    case (Found pr)
    then have run: "get_pr_details net args = pr_with_commits net [?first] args pr"
      using assms log0 by (cases "resolve_pr net [] args") (auto simp: get_pr_details_def)
    obtain rest where rest: "snd (pr_with_commits net [?first] args pr)
          = [?first] @ Get_PR_Commits (pr_id pr) # rest"
      and diffs: "\<forall>q\<in>set rest. \<exists>h. q = Get_Commit_Diff h"
      using pr_with_commits_log [of net "[?first]" args pr] by blast
    have "snd (get_pr_details net args) = ?first # (Get_PR_Commits (pr_id pr) # rest)"
      using run rest by simp
    moreover have "\<forall>q\<in>set (Get_PR_Commits (pr_id pr) # rest).
                     (\<exists>n. q = Get_PR_Commits n) \<or> (\<exists>h. q = Get_Commit_Diff h)"
      using diffs by auto
    ultimately show ?thesis
      using run pr_with_commits_not_invalid [of net "[?first]" args pr] by metis
  qed
qed

subsection \<open>The check of the selectors\<close>

lemma get_pr_details_invalid:
  "\<not> truthy_str (gd_source_branch args) \<Longrightarrow> \<not> truthy_num (gd_pr_id args) \<Longrightarrow>
   get_pr_details net args = (invalid_argument, [])"
  by (simp add: get_pr_details_def)

text \<open>
  C2, as the code has it. With neither \<^verbatim>\<open>source_branch\<close> nor \<^verbatim>\<open>pr_id\<close> the handler
  returns the error-flagged text \<^verbatim>\<open>Either source_branch or pr_id must be provided\<close> and
  issues no request. With exactly one of them, and that one truthy (a \<^verbatim>\<open>pr_id\<close> other
  than 0, a \<^verbatim>\<open>source_branch\<close> other than the empty string), resolution proceeds: the
  result is not that error and the first request is the one that resolves the pull
  request, by id or by branch.
\<close>

theorem truthy_selector_proceeds:
  "(gd_source_branch args = None \<and> gd_pr_id args = None \<longrightarrow>
      get_pr_details net args = (invalid_argument, [])
      \<and> isError invalid_argument
      \<and> content invalid_argument = Text ''Either source_branch or pr_id must be provided'')
   \<and> (gd_source_branch args = None \<and> gd_pr_id args = Some n \<and> n \<noteq> 0 \<longrightarrow>
        fst (get_pr_details net args) \<noteq> invalid_argument
        \<and> (\<exists>rest. snd (get_pr_details net args) = Get_PR n # rest))
   \<and> (gd_pr_id args = None \<and> gd_source_branch args = Some b \<and> b \<noteq> [] \<longrightarrow>
        fst (get_pr_details net args) \<noteq> invalid_argument
        \<and> (\<exists>rest. snd (get_pr_details net args) = Search_PRs b # rest))"
proof (intro conjI impI)
  assume "gd_source_branch args = None \<and> gd_pr_id args = None"
  then show "get_pr_details net args = (invalid_argument, [])"
    by (simp add: get_pr_details_invalid truthy_str_def truthy_num_def)
next
  show "isError invalid_argument" by (simp add: invalid_argument_def)
next
  show "content invalid_argument = Text ''Either source_branch or pr_id must be provided''"
    by (simp add: invalid_argument_def)
next
  assume a: "gd_source_branch args = None \<and> gd_pr_id args = Some n \<and> n \<noteq> 0"
  then have t: "truthy_num (gd_pr_id args)" by (simp add: truthy_num_def)
  from a show "fst (get_pr_details net args) \<noteq> invalid_argument"
    using get_pr_details_proceeds [of args net] t by simp
  from a show "\<exists>rest. snd (get_pr_details net args) = Get_PR n # rest"
    using get_pr_details_proceeds [of args net] t by (auto simp: num_or_def)
next
  assume a: "gd_pr_id args = None \<and> gd_source_branch args = Some b \<and> b \<noteq> []"
  then have t: "truthy_str (gd_source_branch args)" and f: "\<not> truthy_num (gd_pr_id args)"
    by (simp_all add: truthy_str_def truthy_num_def)
  from a show "fst (get_pr_details net args) \<noteq> invalid_argument"
    using get_pr_details_proceeds [of args net] t by simp
  from a show "\<exists>rest. snd (get_pr_details net args) = Search_PRs b # rest"
    using get_pr_details_proceeds [of args net] t f by (auto simp: str_of_def)
qed

theorem truthy_selector_proceeds_witness:
  "get_pr_details (details_net 200 []) (details_args None None None) = (invalid_argument, [])
   \<and> fst (get_pr_details (details_net 200 []) (details_args None (Some 5) None))
       \<noteq> invalid_argument
   \<and> (\<exists>rest. snd (get_pr_details (details_net 200 []) (details_args None (Some 5) None))
          = Get_PR 5 # rest)
   \<and> fst (get_pr_details (details_net 200 []) (details_args (Some ''feature/login'') None None))
       \<noteq> invalid_argument
   \<and> (\<exists>rest. snd (get_pr_details (details_net 200 [])
                     (details_args (Some ''feature/login'') None None))
          = Search_PRs ''feature/login'' # rest)"
proof -
  note neither = truthy_selector_proceeds
    [of "details_args None None None" "details_net 200 []" 5 "''feature/login''", THEN conjunct1]
  note by_id = truthy_selector_proceeds
    [of "details_args None (Some 5) None" "details_net 200 []" 5 "''feature/login''",
     THEN conjunct2, THEN conjunct1]
  note by_branch = truthy_selector_proceeds
    [of "details_args (Some ''feature/login'') None None" "details_net 200 []" 5
        "''feature/login''", THEN conjunct2, THEN conjunct2]
  have 1: "get_pr_details (details_net 200 []) (details_args None None None)
           = (invalid_argument, [])"
    using neither by (simp add: details_args_def)
  have 2: "fst (get_pr_details (details_net 200 []) (details_args None (Some 5) None))
             \<noteq> invalid_argument
           \<and> (\<exists>rest. snd (get_pr_details (details_net 200 []) (details_args None (Some 5) None))
                  = Get_PR 5 # rest)"
    using by_id by (simp add: details_args_def)
  have 3: "fst (get_pr_details (details_net 200 [])
                  (details_args (Some ''feature/login'') None None)) \<noteq> invalid_argument
           \<and> (\<exists>rest. snd (get_pr_details (details_net 200 [])
                             (details_args (Some ''feature/login'') None None))
                  = Search_PRs ''feature/login'' # rest)"
    using by_branch by (simp add: details_args_def)
  show ?thesis using 1 2 3 by blast
qed

text \<open>
  A \<^verbatim>\<open>pr_id\<close> of 0 supplied alone: exactly one selector is supplied, and the handler
  returns the invalid-argument error without a request.
\<close>

theorem zero_id_alone_is_refused:
  "gd_source_branch (details_args None (Some 0) None) = None
   \<and> gd_pr_id (details_args None (Some 0) None) = Some 0
   \<and> get_pr_details (details_net 200 []) (details_args None (Some 0) None)
       = (invalid_argument, [])"
  by (simp add: details_args_def get_pr_details_def truthy_str_def truthy_num_def)

subsection \<open>A \<^verbatim>\<open>pr_id\<close> of 0\<close>

lemma resolve_pr_zero:
  "resolve_pr net log (args\<lparr>gd_pr_id := Some 0\<rparr>) = resolve_pr net log (args\<lparr>gd_pr_id := None\<rparr>)"
  by (simp add: resolve_pr_def truthy_num_def
           split: prod.splits fetch_outcome.splits sum.splits json_body.splits list.splits)

lemma pr_with_commits_zero:
  "pr_with_commits net log (args\<lparr>gd_pr_id := Some 0\<rparr>) pr
   = pr_with_commits net log (args\<lparr>gd_pr_id := None\<rparr>) pr"
  by (simp add: pr_with_commits_def details_result_def search_method_def truthy_num_def
           split: prod.splits fetch_outcome.splits sum.splits json_body.splits)

lemma get_pr_details_zero:
  "get_pr_details net (args\<lparr>gd_pr_id := Some 0\<rparr>) = get_pr_details net (args\<lparr>gd_pr_id := None\<rparr>)"
  unfolding get_pr_details_def resolve_pr_zero pr_with_commits_zero
  by (simp add: truthy_num_def)

text \<open>
  C10, as the code has it. A call with \<^verbatim>\<open>pr_id = 0\<close> returns what the same call without
  \<^verbatim>\<open>pr_id\<close> returns and issues the same requests. Without a \<^verbatim>\<open>source_branch\<close> that is
  the invalid-argument error and no request; with a non-empty \<^verbatim>\<open>source_branch\<close> the
  first request is the branch search and no request fetches a pull request by id.
\<close>

theorem zero_id_is_no_id:
  "get_pr_details net (args\<lparr>gd_pr_id := Some 0\<rparr>) = get_pr_details net (args\<lparr>gd_pr_id := None\<rparr>)
   \<and> (gd_source_branch args = None \<longrightarrow>
        get_pr_details net (args\<lparr>gd_pr_id := Some 0\<rparr>) = (invalid_argument, []))
   \<and> (gd_source_branch args = Some b \<and> b \<noteq> [] \<longrightarrow>
        fst (get_pr_details net (args\<lparr>gd_pr_id := Some 0\<rparr>)) \<noteq> invalid_argument
        \<and> (\<exists>rest. snd (get_pr_details net (args\<lparr>gd_pr_id := Some 0\<rparr>)) = Search_PRs b # rest
              \<and> (\<forall>q\<in>set rest. \<forall>n. q \<noteq> Get_PR n)))"
proof (intro conjI impI)
  show "get_pr_details net (args\<lparr>gd_pr_id := Some 0\<rparr>) = get_pr_details net (args\<lparr>gd_pr_id := None\<rparr>)"
    by (rule get_pr_details_zero)
next
  assume "gd_source_branch args = None"
  then show "get_pr_details net (args\<lparr>gd_pr_id := Some 0\<rparr>) = (invalid_argument, [])"
    by (simp add: get_pr_details_invalid truthy_str_def truthy_num_def)
next
  assume a: "gd_source_branch args = Some b \<and> b \<noteq> []"
  let ?args = "args\<lparr>gd_pr_id := Some 0\<rparr>"
  have t: "truthy_str (gd_source_branch ?args)" and f: "\<not> truthy_num (gd_pr_id ?args)"
    using a by (simp_all add: truthy_str_def truthy_num_def)
  show "fst (get_pr_details net ?args) \<noteq> invalid_argument"
    using get_pr_details_proceeds [of ?args net] t by simp
  obtain rest where "snd (get_pr_details net ?args) = Search_PRs (str_of (gd_source_branch ?args)) # rest"
    and "\<forall>q\<in>set rest. (\<exists>n. q = Get_PR_Commits n) \<or> (\<exists>h. q = Get_Commit_Diff h)"
    using get_pr_details_proceeds [of ?args net] t f by auto
  then have "snd (get_pr_details net ?args) = Search_PRs b # rest \<and> (\<forall>q\<in>set rest. \<forall>n. q \<noteq> Get_PR n)"
    using a by (auto simp: str_of_def)
  then show "\<exists>rest. snd (get_pr_details net ?args) = Search_PRs b # rest
                \<and> (\<forall>q\<in>set rest. \<forall>n. q \<noteq> Get_PR n)"
    by blast
qed

theorem zero_id_is_no_id_witness:
  "gd_source_branch (details_args None None None) = None
   \<and> get_pr_details (details_net 200 []) (details_args None None None\<lparr>gd_pr_id := Some 0\<rparr>)
       = (invalid_argument, [])
   \<and> gd_source_branch (details_args (Some ''feature/login'') None None) = Some ''feature/login''
   \<and> (\<exists>rest. snd (get_pr_details (details_net 200 [a_pull_request 5])
                     (details_args (Some ''feature/login'') None None\<lparr>gd_pr_id := Some 0\<rparr>))
          = Search_PRs ''feature/login'' # rest \<and> Get_PR 0 \<notin> set rest)"
proof -
  have h1: "gd_source_branch (details_args None None None) = None"
    by (simp add: details_args_def)
  have h2: "gd_source_branch (details_args (Some ''feature/login'') None None)
              = Some ''feature/login'' \<and> ''feature/login'' \<noteq> []"
    by (simp add: details_args_def)
  have 1: "get_pr_details (details_net 200 []) (details_args None None None\<lparr>gd_pr_id := Some 0\<rparr>)
           = (invalid_argument, [])"
    using zero_id_is_no_id [of "details_net 200 []" "details_args None None None" "[]",
            THEN conjunct2, THEN conjunct1, THEN mp, OF h1] .
  have 2: "\<exists>rest. snd (get_pr_details (details_net 200 [a_pull_request 5])
                     (details_args (Some ''feature/login'') None None\<lparr>gd_pr_id := Some 0\<rparr>))
          = Search_PRs ''feature/login'' # rest \<and> Get_PR 0 \<notin> set rest"
    using zero_id_is_no_id [of "details_net 200 [a_pull_request 5]"
            "details_args (Some ''feature/login'') None None" "''feature/login''",
            THEN conjunct2, THEN conjunct2, THEN mp, OF h2] by blast
  show ?thesis using h1 1 h2 2 by blast
qed

text \<open>
  A \<^verbatim>\<open>pr_id\<close> of 0 together with the empty string as \<^verbatim>\<open>source_branch\<close>: no branch
  search, the invalid-argument error.
\<close>

theorem zero_id_with_empty_branch:
  "gd_source_branch (details_args (Some []) (Some 0) None) = Some []
   \<and> gd_pr_id (details_args (Some []) (Some 0) None) = Some 0
   \<and> get_pr_details (details_net 200 [a_pull_request 5]) (details_args (Some []) (Some 0) None)
       = (invalid_argument, [])"
  by (simp add: details_args_def get_pr_details_def truthy_str_def truthy_num_def)

subsection \<open>Resolution by id and by branch\<close>

lemma pr_with_commits_result:
  "(\<exists>e. fst (pr_with_commits net log args pr) = details_error e)
   \<or> (\<exists>cs. fst (pr_with_commits net log args pr) = details_result args pr cs)"
  by (auto simp: pr_with_commits_def fetch_def
           split: fetch_outcome.splits sum.splits json_body.splits prod.splits)

lemma get_pr_details_by_id_result:
  assumes "truthy_num (gd_pr_id args)"
  shows "(\<exists>e. fst (get_pr_details net args) = details_error e)
       \<or> (\<exists>pr cs. fst (get_pr_details net args) = details_result args pr cs)"
proof (cases "resolve_pr net [] args")
  case (Pair res log)
  show ?thesis
  proof (cases res)
    case (Thrown e)
    then have "fst (get_pr_details net args) = details_error e"
      using assms Pair by (simp add: get_pr_details_def)
    then show ?thesis by blast
  next
    case (Returned t)
    then have False using assms Pair
      by (auto simp: resolve_pr_def fetch_def
               split: fetch_outcome.splits sum.splits json_body.splits if_splits)
    then show ?thesis ..
  next
    case (Found pr)
    then have "get_pr_details net args = pr_with_commits net log args pr"
      using assms Pair by (simp add: get_pr_details_def)
    then show ?thesis using pr_with_commits_result [of net log args pr] by auto
  qed
qed

lemma number_text_safe:
  assumes "\<bar>n\<bar> < 2 ^ 53"
  shows "number_text n = (if n < 0 then CHR ''-'' # show_nat (nat (- n)) else show_nat (nat n))"
proof -
  have "\<bar>n\<bar> < 9007199254740992" using assms by simp
  then have "nat (- n) < 9007199254740992" and "nat n < 9007199254740992" by linarith+
  then show ?thesis by (simp add: number_text_def number_text_nat_def)
qed

lemma search_method_by_id:
  "gd_pr_id args = Some n \<Longrightarrow> n \<noteq> 0 \<Longrightarrow> search_method args = ''pr_id: '' @ number_text n"
  by (simp add: search_method_def truthy_num_def num_or_def)

lemma resolve_by_id:
  assumes "gd_pr_id args = Some n" and "n \<noteq> 0"
  shows "resolve_pr net [] args =
     ((case net 0 (Get_PR n) of
         Rejected e \<Rightarrow> Thrown e
       | Resolved r \<Rightarrow>
           if \<not> ok r then Thrown (api_error r)
           else (case json_body r of
                   Inl e \<Rightarrow> Thrown e
                 | Inr (J_PR pr) \<Rightarrow> Found pr
                 | Inr _ \<Rightarrow> Thrown wrong_shape)),
      [Get_PR n])"
  using assms
  by (simp add: resolve_pr_def truthy_num_def num_or_def fetch_def
           split: fetch_outcome.splits sum.splits json_body.splits)

lemma get_pr_details_by_id:
  assumes "gd_pr_id args = Some n" and "n \<noteq> 0"
  shows "get_pr_details net args =
     (case net 0 (Get_PR n) of
        Rejected e \<Rightarrow> (details_error e, [Get_PR n])
      | Resolved r \<Rightarrow>
          if \<not> ok r then (details_error (api_error r), [Get_PR n])
          else (case json_body r of
                  Inl e \<Rightarrow> (details_error e, [Get_PR n])
                | Inr (J_PR pr) \<Rightarrow> pr_with_commits net [Get_PR n] args pr
                | Inr _ \<Rightarrow> (details_error wrong_shape, [Get_PR n])))"
  using assms
  by (simp add: get_pr_details_def resolve_by_id [OF assms] truthy_num_def
           split: fetch_outcome.splits sum.splits json_body.splits)

text \<open>
  C9. A call with a \<^verbatim>\<open>pr_id\<close> other than 0 and a \<^verbatim>\<open>source_branch\<close> does not get the
  invalid-argument result. Its first request fetches the pull request by that id and
  none of its requests is a branch search. If that fetch throws or is answered with a
  status outside 200..299, the result is the error of that fetch and nothing else is
  requested. If it is answered with a pull request, and the commits request is answered
  with any status, the handler succeeds: it returns the details of the pull request
  fetched by id, with \<^verbatim>\<open>search_method\<close> \<^verbatim>\<open>pr_id: <id>\<close>, the id written as JavaScript writes
  the number, in plain decimal for every id of magnitude below \<open>2^53\<close>.
\<close>

theorem id_takes_precedence:
  assumes "gd_pr_id args = Some n" and "n \<noteq> 0" and "gd_source_branch args = Some b"
  shows "fst (get_pr_details net args) \<noteq> invalid_argument
     \<and> (\<exists>rest. snd (get_pr_details net args) = Get_PR n # rest)
     \<and> (\<forall>q\<in>set (snd (get_pr_details net args)). \<forall>b'. q \<noteq> Search_PRs b')
     \<and> ((\<exists>e. fst (get_pr_details net args) = details_error e)
        \<or> (\<exists>d. fst (get_pr_details net args)
                 = \<lparr>content = PR_Details_Json (''pr_id: '' @ number_text n) d, isError = False\<rparr>))
     \<and> (net 0 (Get_PR n) = Rejected e \<longrightarrow>
          get_pr_details net args = (details_error e, [Get_PR n]))
     \<and> (net 0 (Get_PR n) = Resolved r0 \<and> \<not> ok r0 \<longrightarrow>
          get_pr_details net args = (details_error (api_error r0), [Get_PR n]))
     \<and> (net 0 (Get_PR n) = Resolved r0 \<and> ok r0 \<and> json_body r0 = Inr (J_PR pr)
         \<and> net 1 (Get_PR_Commits (pr_id pr)) = Resolved r1 \<and> \<not> ok r1 \<longrightarrow>
          get_pr_details net args
          = (\<lparr>content = PR_Details_Json (''pr_id: '' @ number_text n)
                 (prDetails pr [Commit_Error (commits_error r1)]),
               isError = False\<rparr>,
             [Get_PR n, Get_PR_Commits (pr_id pr)]))
     \<and> (net 0 (Get_PR n) = Resolved r0 \<and> ok r0 \<and> json_body r0 = Inr (J_PR pr)
         \<and> net 1 (Get_PR_Commits (pr_id pr)) = Resolved r1 \<and> ok r1
         \<and> json_body r1 = Inr (J_Commits cs) \<longrightarrow>
          get_pr_details net args
          = (\<lparr>content = PR_Details_Json (''pr_id: '' @ number_text n)
                 (prDetails pr
                    (map Commit_Data
                       (fst (commit_loop net (gd_include_diff args = Some True)
                               [Get_PR n, Get_PR_Commits (pr_id pr)] cs)))),
               isError = False\<rparr>,
             [Get_PR n, Get_PR_Commits (pr_id pr)]
             @ (if gd_include_diff args = Some True
                then map (\<lambda>c. Get_Commit_Diff (c_hash c)) cs else [])))
     \<and> (\<bar>n\<bar> < 2 ^ 53 \<longrightarrow>
          number_text n = (if n < 0 then CHR ''-'' # show_nat (nat (- n)) else show_nat (nat n)))"
proof -
  have t: "truthy_num (gd_pr_id args)" using assms(1,2) by (simp add: truthy_num_def)
  have n: "num_or (gd_pr_id args) 0 = n" using assms(1,2) by (simp add: num_or_def)
  note run = get_pr_details_by_id [OF assms(1,2), of net]
  note sm = search_method_by_id [OF assms(1,2)]
  obtain rest where log: "snd (get_pr_details net args) = Get_PR n # rest"
    and rest: "\<forall>q\<in>set rest. (\<exists>k. q = Get_PR_Commits k) \<or> (\<exists>h. q = Get_Commit_Diff h)"
    using get_pr_details_proceeds [of args net] t n by auto
  have c1: "fst (get_pr_details net args) \<noteq> invalid_argument"
    using get_pr_details_proceeds [of args net] t by blast
  have c2: "\<exists>rest. snd (get_pr_details net args) = Get_PR n # rest"
    using log by blast
  have "\<forall>q\<in>set (Get_PR n # rest). \<forall>b'. q \<noteq> Search_PRs b'"
    using rest by auto
  then have c3: "\<forall>q\<in>set (snd (get_pr_details net args)). \<forall>b'. q \<noteq> Search_PRs b'"
    by (simp only: log)
  have c4: "(\<exists>e. fst (get_pr_details net args) = details_error e)
        \<or> (\<exists>d. fst (get_pr_details net args)
                 = \<lparr>content = PR_Details_Json (''pr_id: '' @ number_text n) d, isError = False\<rparr>)"
    using get_pr_details_by_id_result [OF t, of net] sm
    by (auto simp: details_result_def)
  have c5: "net 0 (Get_PR n) = Rejected e \<longrightarrow>
          get_pr_details net args = (details_error e, [Get_PR n])"
    by (simp add: run)
  have c6: "net 0 (Get_PR n) = Resolved r0 \<and> \<not> ok r0 \<longrightarrow>
          get_pr_details net args = (details_error (api_error r0), [Get_PR n])"
    by (simp add: run)
  have c7: "net 0 (Get_PR n) = Resolved r0 \<and> ok r0 \<and> json_body r0 = Inr (J_PR pr)
         \<and> net 1 (Get_PR_Commits (pr_id pr)) = Resolved r1 \<and> \<not> ok r1 \<longrightarrow>
          get_pr_details net args
          = (\<lparr>content = PR_Details_Json (''pr_id: '' @ number_text n)
                 (prDetails pr [Commit_Error (commits_error r1)]),
               isError = False\<rparr>,
             [Get_PR n, Get_PR_Commits (pr_id pr)])"
    by (simp add: run pr_with_commits_def fetch_def details_result_def sm)
  have c8: "net 0 (Get_PR n) = Resolved r0 \<and> ok r0 \<and> json_body r0 = Inr (J_PR pr)
         \<and> net 1 (Get_PR_Commits (pr_id pr)) = Resolved r1 \<and> ok r1
         \<and> json_body r1 = Inr (J_Commits cs) \<longrightarrow>
          get_pr_details net args
          = (\<lparr>content = PR_Details_Json (''pr_id: '' @ number_text n)
                 (prDetails pr
                    (map Commit_Data
                       (fst (commit_loop net (gd_include_diff args = Some True)
                               [Get_PR n, Get_PR_Commits (pr_id pr)] cs)))),
               isError = False\<rparr>,
             [Get_PR n, Get_PR_Commits (pr_id pr)]
             @ (if gd_include_diff args = Some True
                then map (\<lambda>c. Get_Commit_Diff (c_hash c)) cs else []))"
    using commit_loop_log [of net "gd_include_diff args = Some True"
                             "[Get_PR n, Get_PR_Commits (pr_id pr)]" cs]
    by (auto simp: run pr_with_commits_def fetch_def details_result_def sm split: prod.splits)
  have c9: "\<bar>n\<bar> < 2 ^ 53 \<longrightarrow>
          number_text n = (if n < 0 then CHR ''-'' # show_nat (nat (- n)) else show_nat (nat n))"
    using number_text_safe by blast
  show ?thesis using c1 c2 c3 c4 c5 c6 c7 c8 c9 by (intro conjI)
qed

lemma details_by_id_run:
  "get_pr_details (details_net 200 []) (details_args (Some ''feature/login'') (Some 5) (Some True))
   = (\<lparr>content = PR_Details_Json ''pr_id: 5''
         (prDetails (a_pull_request 5)
            [Commit_Data \<lparr>cd_hash = ''c1'', cd_message = ''Fix login bug #42'', cd_author = ''Ada'',
               cd_date = ''2024-05-01'',
               cd_diff = Some (JStr ''Error fetching diff: 500 Internal Server Error'')\<rparr>,
             Commit_Data \<lparr>cd_hash = ''c2'', cd_message = ''Fix login bug #42'', cd_author = ''Ada'',
               cd_date = ''2024-05-01'', cd_diff = Some (JStr ''diff --git a/f b/f'')\<rparr>]),
       isError = False\<rparr>,
      [Get_PR 5, Get_PR_Commits 5, Get_Commit_Diff ''c1'', Get_Commit_Diff ''c2''])"
  by (simp add: get_pr_details_def details_args_def details_net_def truthy_str_def truthy_num_def
        resolve_pr_def fetch_def num_or_def json_response_def text_response_def ok_def
        pr_with_commits_def a_pull_request_def a_commit_def commitData_def commit_diff_def
        commit_author_def str_of_def details_result_def search_method_def number_text_def
        number_text_nat_def show_nat.simps digit_char_def)

theorem id_takes_precedence_witness:
  "gd_pr_id (details_args (Some ''feature/login'') (Some 5) (Some True)) = Some 5
   \<and> (5::int) \<noteq> 0
   \<and> gd_source_branch (details_args (Some ''feature/login'') (Some 5) (Some True))
       = Some ''feature/login''
   \<and> details_net 200 [] 0 (Get_PR 5)
       = Resolved (json_response 200 ''OK'' (J_PR (a_pull_request 5)))
   \<and> ok (json_response 200 ''OK'' (J_PR (a_pull_request 5)))
   \<and> details_net 200 [] 1 (Get_PR_Commits (pr_id (a_pull_request 5)))
       = Resolved (json_response 200 ''status text'' (J_Commits [a_commit ''c1'', a_commit ''c2'']))
   \<and> ok (json_response 200 ''status text'' (J_Commits [a_commit ''c1'', a_commit ''c2'']))
   \<and> \<bar>5::int\<bar> < 2 ^ 53
   \<and> fst (get_pr_details (details_net 200 [])
             (details_args (Some ''feature/login'') (Some 5) (Some True))) \<noteq> invalid_argument
   \<and> Search_PRs ''feature/login''
       \<notin> set (snd (get_pr_details (details_net 200 [])
                     (details_args (Some ''feature/login'') (Some 5) (Some True))))
   \<and> get_pr_details (details_net 200 [])
        (details_args (Some ''feature/login'') (Some 5) (Some True))
       = (\<lparr>content = PR_Details_Json ''pr_id: 5''
             (prDetails (a_pull_request 5)
                (map Commit_Data
                   (fst (commit_loop (details_net 200 []) True [Get_PR 5, Get_PR_Commits 5]
                           [a_commit ''c1'', a_commit ''c2''])))),
           isError = False\<rparr>,
          [Get_PR 5, Get_PR_Commits 5, Get_Commit_Diff ''c1'', Get_Commit_Diff ''c2''])"
proof -
  let ?args = "details_args (Some ''feature/login'') (Some 5) (Some True)"
  let ?net = "details_net 200 []"
  let ?r0 = "json_response 200 ''OK'' (J_PR (a_pull_request 5))"
  let ?cs = "[a_commit ''c1'', a_commit ''c2'']"
  let ?r1 = "json_response 200 ''status text'' (J_Commits ?cs)"
  have h1: "gd_pr_id ?args = Some 5" by (simp add: details_args_def)
  have h2: "(5::int) \<noteq> 0" by simp
  have h3: "gd_source_branch ?args = Some ''feature/login''" by (simp add: details_args_def)
  have g0: "?net 0 (Get_PR 5) = Resolved ?r0" by (simp add: details_net_def)
  have g1: "ok ?r0" by (simp add: json_response_def ok_def)
  have g2: "json_body ?r0 = Inr (J_PR (a_pull_request 5))" by (simp add: json_response_def)
  have g3: "?net 1 (Get_PR_Commits (pr_id (a_pull_request 5))) = Resolved ?r1"
    by (simp add: details_net_def)
  have g4: "ok ?r1" by (simp add: json_response_def ok_def)
  have g5: "json_body ?r1 = Inr (J_Commits ?cs)" by (simp add: json_response_def)
  have safe: "\<bar>5::int\<bar> < 2 ^ 53" by simp
  note inst = id_takes_precedence
    [of ?args 5 "''feature/login''" ?net _ ?r0 "a_pull_request 5" ?r1 ?cs, OF h1 h2 h3]
  have a: "fst (get_pr_details ?net ?args) \<noteq> invalid_argument"
    using inst [THEN conjunct1] .
  have "\<forall>q\<in>set (snd (get_pr_details ?net ?args)). \<forall>b'. q \<noteq> Search_PRs b'"
    using inst [THEN conjunct2, THEN conjunct2, THEN conjunct1] .
  then have b: "Search_PRs ''feature/login'' \<notin> set (snd (get_pr_details ?net ?args))"
    by blast
  have text5: "number_text 5 = ''5''"
    using inst [THEN conjunct2, THEN conjunct2, THEN conjunct2, THEN conjunct2, THEN conjunct2,
                THEN conjunct2, THEN conjunct2, THEN conjunct2, THEN mp, OF safe]
    by (simp add: show_nat.simps digit_char_def)
  have "get_pr_details ?net ?args
          = (\<lparr>content = PR_Details_Json (''pr_id: '' @ number_text 5)
                 (prDetails (a_pull_request 5)
                    (map Commit_Data
                       (fst (commit_loop ?net (gd_include_diff ?args = Some True)
                               [Get_PR 5, Get_PR_Commits (pr_id (a_pull_request 5))] ?cs)))),
               isError = False\<rparr>,
             [Get_PR 5, Get_PR_Commits (pr_id (a_pull_request 5))]
             @ (if gd_include_diff ?args = Some True
                then map (\<lambda>c. Get_Commit_Diff (c_hash c)) ?cs else []))"
    using inst [THEN conjunct2, THEN conjunct2, THEN conjunct2, THEN conjunct2, THEN conjunct2,
                THEN conjunct2, THEN conjunct2, THEN conjunct1, THEN mp] g0 g1 g2 g3 g4 g5
    by blast
  then have c: "get_pr_details ?net ?args
       = (\<lparr>content = PR_Details_Json ''pr_id: 5''
             (prDetails (a_pull_request 5)
                (map Commit_Data
                   (fst (commit_loop ?net True [Get_PR 5, Get_PR_Commits 5] ?cs)))),
           isError = False\<rparr>,
          [Get_PR 5, Get_PR_Commits 5, Get_Commit_Diff ''c1'', Get_Commit_Diff ''c2''])"
    by (simp add: text5 details_args_def a_pull_request_def a_commit_def)
  show ?thesis using h1 h2 h3 g0 g1 g3 g4 safe a b c by (intro conjI)
qed

lemma resolve_by_branch:
  assumes "\<not> truthy_num (gd_pr_id args)" and "gd_source_branch args = Some b"
    and "net (length log) (Search_PRs b) = Resolved r" and "ok r"
    and "json_body r = Inr (J_PR_Page data)"
  shows "resolve_pr net log args =
     ((case pg_values data of [] \<Rightarrow> Returned (not_found (Some b)) | pr # _ \<Rightarrow> Found pr),
      log @ [Search_PRs b])"
  using assms by (simp add: resolve_pr_def fetch_def str_of_def split: list.splits)

lemma details_result_content:
  "content (details_result args pr cs) = PR_Details_Json m d
   \<longleftrightarrow> m = search_method args \<and> d = prDetails pr cs"
  by (auto simp: details_result_def)

lemma pd_commits_prDetails: "pd_commits (prDetails pr cs) = cs"
  by (simp add: prDetails_def)

lemma pr_with_commits_content:
  assumes "content (fst (pr_with_commits net log args pr)) = PR_Details_Json m d"
  shows "m = search_method args \<and> d = prDetails pr (pd_commits d)"
proof -
  from pr_with_commits_result [of net log args pr] show ?thesis
  proof
    assume "\<exists>e. fst (pr_with_commits net log args pr) = details_error e"
    then show ?thesis using assms by (auto simp: details_error_def)
  next
    assume "\<exists>cs. fst (pr_with_commits net log args pr) = details_result args pr cs"
    then show ?thesis using assms by (auto simp: details_result_content pd_commits_prDetails)
  qed
qed

text \<open>
  C6. Let a call name a non-empty \<^verbatim>\<open>source_branch\<close> and no \<^verbatim>\<open>pr_id\<close>, and let the branch
  search be answered with a page. If the page is empty, the handler returns, without the
  error flag, the text \<^verbatim>\<open>No pull request found for source branch: <branch>\<close>, having
  issued the search only. Otherwise it goes on with the first pull request of the page
  and with nothing else of the page: the next request asks for the commits of that pull
  request, and the details returned are those of that pull request, with
  \<^verbatim>\<open>source_branch: <branch>\<close> as the search method.
\<close>

theorem branch_search_takes_first:
  assumes "gd_pr_id args = None" and "gd_source_branch args = Some b" and "b \<noteq> []"
    and "net 0 (Search_PRs b) = Resolved r" and "ok r"
    and "json_body r = Inr (J_PR_Page data)"
  shows "(pg_values data = [] \<longrightarrow>
            get_pr_details net args
            = (\<lparr>content = Text (''No pull request found for source branch: '' @ b),
                 isError = False\<rparr>, [Search_PRs b]))
     \<and> (\<forall>pr others. pg_values data = pr # others \<longrightarrow>
            get_pr_details net args = pr_with_commits net [Search_PRs b] args pr
          \<and> (\<exists>more. snd (get_pr_details net args)
                 = Search_PRs b # Get_PR_Commits (pr_id pr) # more)
          \<and> (\<forall>m d. content (fst (get_pr_details net args)) = PR_Details_Json m d \<longrightarrow>
                 m = ''source_branch: '' @ b \<and> d = prDetails pr (pd_commits d)))"
proof -
  have f: "\<not> truthy_num (gd_pr_id args)" using assms(1) by (simp add: truthy_num_def)
  have t: "truthy_str (gd_source_branch args)" using assms(2,3) by (simp add: truthy_str_def)
  have res: "resolve_pr net [] args =
     ((case pg_values data of [] \<Rightarrow> Returned (not_found (Some b)) | pr # _ \<Rightarrow> Found pr),
      [] @ [Search_PRs b])"
    using f assms(2) _ assms(5,6) by (rule resolve_by_branch) (simp add: assms(4))
  have sm: "search_method args = ''source_branch: '' @ b"
    using f assms(2) by (simp add: search_method_def str_of_def)
  have empty: "get_pr_details net args
            = (\<lparr>content = Text (''No pull request found for source branch: '' @ b),
                 isError = False\<rparr>, [Search_PRs b])" if "pg_values data = []"
    using that res t by (simp add: get_pr_details_def not_found_def str_of_def)
  have first: "get_pr_details net args = pr_with_commits net [Search_PRs b] args pr
          \<and> (\<exists>more. snd (get_pr_details net args)
                 = Search_PRs b # Get_PR_Commits (pr_id pr) # more)
          \<and> (\<forall>m d. content (fst (get_pr_details net args)) = PR_Details_Json m d \<longrightarrow>
                 m = ''source_branch: '' @ b \<and> d = prDetails pr (pd_commits d))"
    if "pg_values data = pr # others" for pr others
  proof -
    have run: "get_pr_details net args = pr_with_commits net [Search_PRs b] args pr"
      using that res t by (simp add: get_pr_details_def)
    have "\<exists>more. snd (pr_with_commits net [Search_PRs b] args pr)
                 = Search_PRs b # Get_PR_Commits (pr_id pr) # more"
      using pr_with_commits_log [of net "[Search_PRs b]" args pr] by auto
    moreover have "\<forall>m d. content (fst (pr_with_commits net [Search_PRs b] args pr))
                       = PR_Details_Json m d \<longrightarrow>
                 m = ''source_branch: '' @ b \<and> d = prDetails pr (pd_commits d)"
      using pr_with_commits_content [of net "[Search_PRs b]" args pr] sm by metis
    ultimately show ?thesis using run by simp
  qed
  show ?thesis using empty first by blast
qed

lemma details_by_branch_run:
  "get_pr_details (details_net 200 [a_pull_request 5, a_pull_request 6])
     (details_args (Some ''feature/login'') None None)
   = (\<lparr>content = PR_Details_Json ''source_branch: feature/login''
         (prDetails (a_pull_request 5)
            [Commit_Data \<lparr>cd_hash = ''c1'', cd_message = ''Fix login bug #42'', cd_author = ''Ada'',
               cd_date = ''2024-05-01'', cd_diff = None\<rparr>,
             Commit_Data \<lparr>cd_hash = ''c2'', cd_message = ''Fix login bug #42'', cd_author = ''Ada'',
               cd_date = ''2024-05-01'', cd_diff = None\<rparr>]),
       isError = False\<rparr>,
      [Search_PRs ''feature/login'', Get_PR_Commits 5])"
  by (simp add: get_pr_details_def details_args_def details_net_def truthy_str_def truthy_num_def
        resolve_pr_def fetch_def num_or_def json_response_def text_response_def ok_def
        pr_with_commits_def a_pull_request_def a_commit_def commitData_def commit_diff_def
        commit_author_def str_of_def details_result_def search_method_def a_search_page_def)

theorem branch_search_takes_first_witness:
  "gd_pr_id (details_args (Some ''feature/login'') None None) = None
   \<and> gd_source_branch (details_args (Some ''feature/login'') None None) = Some ''feature/login''
   \<and> ''feature/login'' \<noteq> []
   \<and> ok (json_response 200 ''OK'' (J_PR_Page (a_search_page [])))
   \<and> get_pr_details (details_net 200 []) (details_args (Some ''feature/login'') None None)
       = (\<lparr>content = Text ''No pull request found for source branch: feature/login'',
            isError = False\<rparr>, [Search_PRs ''feature/login''])
   \<and> pg_values (a_search_page [a_pull_request 5, a_pull_request 6])
       = a_pull_request 5 # [a_pull_request 6]
   \<and> get_pr_details (details_net 200 [a_pull_request 5, a_pull_request 6])
         (details_args (Some ''feature/login'') None None)
       = pr_with_commits (details_net 200 [a_pull_request 5, a_pull_request 6])
           [Search_PRs ''feature/login''] (details_args (Some ''feature/login'') None None)
           (a_pull_request 5)
   \<and> snd (get_pr_details (details_net 200 [a_pull_request 5, a_pull_request 6])
            (details_args (Some ''feature/login'') None None))
       = [Search_PRs ''feature/login'', Get_PR_Commits 5]
   \<and> pd_id (prDetails (a_pull_request 5) []) = 5"
proof -
  let ?args = "details_args (Some ''feature/login'') None None"
  let ?b = "''feature/login''"
  have h1: "gd_pr_id ?args = None" by (simp add: details_args_def)
  have h2: "gd_source_branch ?args = Some ?b" by (simp add: details_args_def)
  have h3: "?b \<noteq> []" by simp
  have h4: "details_net 200 found 0 (Search_PRs ?b)
            = Resolved (json_response 200 ''OK'' (J_PR_Page (a_search_page found)))" for found
    by (simp add: details_net_def)
  have h5: "ok (json_response 200 ''OK'' (J_PR_Page (a_search_page found)))" for found
    by (simp add: json_response_def ok_def)
  have h6: "json_body (json_response 200 ''OK'' (J_PR_Page (a_search_page found)))
            = Inr (J_PR_Page (a_search_page found))" for found
    by (simp add: json_response_def)
  have e: "pg_values (a_search_page []) = []" by (simp add: a_search_page_def)
  have v: "pg_values (a_search_page [a_pull_request 5, a_pull_request 6])
           = a_pull_request 5 # [a_pull_request 6]"
    by (simp add: a_search_page_def)
  note none = branch_search_takes_first
    [of ?args ?b "details_net 200 []" _ "a_search_page []", OF h1 h2 h3 h4 h5 h6,
     THEN conjunct1, THEN mp, OF e]
  note some = branch_search_takes_first
    [of ?args ?b "details_net 200 [a_pull_request 5, a_pull_request 6]" _
        "a_search_page [a_pull_request 5, a_pull_request 6]", OF h1 h2 h3 h4 h5 h6,
     THEN conjunct2, THEN spec, THEN spec, THEN mp, OF v]
  have 1: "get_pr_details (details_net 200 []) ?args
       = (\<lparr>content = Text ''No pull request found for source branch: feature/login'',
            isError = False\<rparr>, [Search_PRs ''feature/login''])"
    using none by simp
  have 2: "snd (get_pr_details (details_net 200 [a_pull_request 5, a_pull_request 6]) ?args)
       = [Search_PRs ''feature/login'', Get_PR_Commits 5]"
    by (simp add: details_by_branch_run)
  have 3: "get_pr_details (details_net 200 [a_pull_request 5, a_pull_request 6]) ?args
       = pr_with_commits (details_net 200 [a_pull_request 5, a_pull_request 6])
           [Search_PRs ''feature/login''] ?args (a_pull_request 5)"
    using some [THEN conjunct1] .
  have 4: "pd_id (prDetails (a_pull_request 5) []) = 5"
    by (simp add: prDetails_def a_pull_request_def)
  show ?thesis using h1 h2 h3 h5 [of "[]"] 1 v 3 2 4 by (intro conjI)
qed

subsection \<open>The commits of the pull request\<close>

lemma resolve_pr_found_log:
  assumes "resolve_pr net [] args = (Found pr, log)"
  shows "length log = 1"
  using resolve_pr_log [of net "[]" args] assms by simp

lemma get_pr_details_found:
  assumes "truthy_str (gd_source_branch args) \<or> truthy_num (gd_pr_id args)"
    and "resolve_pr net [] args = (Found pr, log)"
  shows "get_pr_details net args = pr_with_commits net log args pr"
  using assms by (auto simp: get_pr_details_def)

text \<open>
  C5. Let the arguments pass the check and the pull request be found, by id or by branch.
  If the request for its commits is answered with a status outside 200..299, the handler
  returns, without the error flag, the details of the pull request with a \<^verbatim>\<open>commits\<close>
  list of one element, the string \<^verbatim>\<open>Error fetching commits: <status> <status text>\<close>,
  and issues no further request.
\<close>

theorem commits_failure_degrades:
  assumes "truthy_str (gd_source_branch args) \<or> truthy_num (gd_pr_id args)"
    and "resolve_pr net [] args = (Found pr, log)"
    and "net 1 (Get_PR_Commits (pr_id pr)) = Resolved r" and "\<not> ok r"
  shows "get_pr_details net args =
     (\<lparr>content = PR_Details_Json (search_method args)
          \<lparr>pd_id = pr_id pr, pd_title = pr_title pr, pd_state = pr_state pr,
           pd_author = pr_author pr, pd_created_on = pr_created_on pr,
           pd_updated_on = pr_updated_on pr, pd_source_branch = pr_source_branch pr,
           pd_destination_branch = pr_destination_branch pr, pd_html = pr_html pr,
           pd_reviewers = (case pr_reviewers pr of None \<Rightarrow> [] | Some rs \<Rightarrow> rs),
           pd_commits = [Commit_Error (''Error fetching commits: '' @ show_nat (status r)
                                        @ '' '' @ statusText r)]\<rparr>,
        isError = False\<rparr>,
      log @ [Get_PR_Commits (pr_id pr)])"
proof -
  have "length log = 1" using assms(2) by (rule resolve_pr_found_log)
  then have "net (length log) (Get_PR_Commits (pr_id pr)) = Resolved r"
    using assms(3) by simp
  then have "pr_with_commits net log args pr =
     (details_result args pr [Commit_Error (commits_error r)], log @ [Get_PR_Commits (pr_id pr)])"
    using assms(4) by (simp add: pr_with_commits_def fetch_def)
  then show ?thesis
    using get_pr_details_found [OF assms(1,2)]
    by (simp add: details_result_def prDetails_def commits_error_def)
qed

theorem commits_failure_degrades_witness:
  "truthy_num (gd_pr_id (details_args None (Some 5) (Some True)))
   \<and> resolve_pr (details_net 503 []) [] (details_args None (Some 5) (Some True))
       = (Found (a_pull_request 5), [Get_PR 5])
   \<and> details_net 503 [] 1 (Get_PR_Commits 5)
       = Resolved (json_response 503 ''status text'' (J_Commits [a_commit ''c1'', a_commit ''c2'']))
   \<and> \<not> ok (json_response 503 ''status text'' (J_Commits [a_commit ''c1'', a_commit ''c2'']))
   \<and> get_pr_details (details_net 503 []) (details_args None (Some 5) (Some True))
       = (\<lparr>content = PR_Details_Json ''pr_id: 5''
             (prDetails (a_pull_request 5) [Commit_Error ''Error fetching commits: 503 status text'']),
           isError = False\<rparr>,
          [Get_PR 5, Get_PR_Commits 5])"
proof -
  let ?args = "details_args None (Some 5) (Some True)"
  let ?r = "json_response 503 ''status text'' (J_Commits [a_commit ''c1'', a_commit ''c2''])"
  have t: "truthy_num (gd_pr_id ?args)" by (simp add: details_args_def truthy_num_def)
  then have h1: "truthy_str (gd_source_branch ?args) \<or> truthy_num (gd_pr_id ?args)" ..
  have h2: "resolve_pr (details_net 503 []) [] ?args = (Found (a_pull_request 5), [Get_PR 5])"
    by (simp add: resolve_pr_def details_args_def truthy_num_def num_or_def fetch_def
          details_net_def json_response_def ok_def)
  have h3: "details_net 503 [] 1 (Get_PR_Commits (pr_id (a_pull_request 5))) = Resolved ?r"
    by (simp add: details_net_def)
  have h3': "details_net 503 [] 1 (Get_PR_Commits 5) = Resolved ?r"
    by (simp add: details_net_def)
  have h4: "\<not> ok ?r" by (simp add: json_response_def ok_def)
  have "get_pr_details (details_net 503 []) ?args
       = (\<lparr>content = PR_Details_Json ''pr_id: 5''
             (prDetails (a_pull_request 5) [Commit_Error ''Error fetching commits: 503 status text'']),
           isError = False\<rparr>,
          [Get_PR 5, Get_PR_Commits 5])"
    using commits_failure_degrades [OF h1 h2 h3 h4]
    by (simp add: prDetails_def a_pull_request_def json_response_def search_method_def
          details_args_def truthy_num_def num_or_def number_text_def number_text_nat_def
          show_nat.simps digit_char_def)
  then show ?thesis using t h2 h3' h4 by (intro conjI)
qed

subsection \<open>The diffs of the commits\<close>

lemma commit_entry_at:
  assumes "i < length cs"
  shows "fst (commit_loop net inc [q0, q1] cs) ! i =
     \<lparr>cd_hash = c_hash (cs ! i), cd_message = c_message (cs ! i),
      cd_author = commit_author (cs ! i), cd_date = c_date (cs ! i),
      cd_diff = (if inc then Some (JStr (commit_diff (net (2 + i) (Get_Commit_Diff (c_hash (cs ! i))))))
                 else None)\<rparr>"
  using assms by (simp add: commit_loop_nth commitData_fst)

text \<open>
  C4. Let the arguments pass the check, the pull request be found and the request for its
  commits be answered with the list \<open>cs\<close>. The handler then succeeds and returns one commit
  record for each element of \<open>cs\<close>, in order.
  With \<^verbatim>\<open>include_diff\<close> \<^verbatim>\<open>true\<close>, the request number \<open>2 + i\<close> asks for the diff of the
  \<open>i\<close>-th commit, and the \<^verbatim>\<open>diff\<close> of the \<open>i\<close>-th record is determined by the outcome of
  that request alone: the text of the response when the status is 2xx and the text can be
  read, the string \<^verbatim>\<open>Error fetching diff: <status> <status text>\<close> when the status is not
  2xx, and \<^verbatim>\<open>Error fetching diff: <message>\<close> when the request throws.
  With \<^verbatim>\<open>include_diff\<close> \<^verbatim>\<open>false\<close> or absent, no diff is requested and no record has
  the key \<^verbatim>\<open>diff\<close>.
\<close>

theorem commit_diffs_are_isolated:
  assumes "truthy_str (gd_source_branch args) \<or> truthy_num (gd_pr_id args)"
    and "resolve_pr net [] args = (Found pr, log)"
    and "net 1 (Get_PR_Commits (pr_id pr)) = Resolved r" and "ok r"
    and "json_body r = Inr (J_Commits cs)"
  shows "fst (get_pr_details net args)
       = \<lparr>content = PR_Details_Json (search_method args)
            (prDetails pr (map Commit_Data (commit_records (fst (get_pr_details net args))))),
          isError = False\<rparr>
     \<and> length (commit_records (fst (get_pr_details net args))) = length cs
     \<and> (\<forall>i<length cs.
          cd_hash (commit_records (fst (get_pr_details net args)) ! i) = c_hash (cs ! i)
        \<and> cd_message (commit_records (fst (get_pr_details net args)) ! i) = c_message (cs ! i))
     \<and> (gd_include_diff args = Some True \<longrightarrow>
          length (snd (get_pr_details net args)) = 2 + length cs
          \<and> (\<forall>i<length cs.
                snd (get_pr_details net args) ! (2 + i) = Get_Commit_Diff (c_hash (cs ! i))
              \<and> cd_diff (commit_records (fst (get_pr_details net args)) ! i)
                = Some (JStr (commit_diff (net (2 + i) (Get_Commit_Diff (c_hash (cs ! i))))))))
     \<and> (gd_include_diff args \<noteq> Some True \<longrightarrow>
          length (snd (get_pr_details net args)) = 2
          \<and> (\<forall>i<length cs. cd_diff (commit_records (fst (get_pr_details net args)) ! i) = None))
     \<and> commit_diff (Rejected e) = ''Error fetching diff: '' @ e
     \<and> (\<not> ok r' \<longrightarrow> commit_diff (Resolved r')
            = ''Error fetching diff: '' @ show_nat (status r') @ '' '' @ statusText r')
     \<and> (ok r' \<and> text_body r' = Inr t \<longrightarrow> commit_diff (Resolved r') = t)"
proof -
  let ?inc = "gd_include_diff args = Some True"
  obtain q0 where log: "log = [q0]"
    using resolve_pr_found_log [OF assms(2)] by (cases log) auto
  let ?l1 = "[q0, Get_PR_Commits (pr_id pr)]"
  let ?commits = "fst (commit_loop net ?inc ?l1 cs)"
  let ?log' = "?l1 @ (if ?inc then map (\<lambda>c. Get_Commit_Diff (c_hash c)) cs else [])"
  have "pr_with_commits net log args pr
        = (details_result args pr (map Commit_Data ?commits), snd (commit_loop net ?inc ?l1 cs))"
    using assms(3,4,5) log by (simp add: pr_with_commits_def fetch_def split: prod.splits)
  then have run: "get_pr_details net args
       = (\<lparr>content = PR_Details_Json (search_method args) (prDetails pr (map Commit_Data ?commits)),
            isError = False\<rparr>, ?log')"
    using get_pr_details_found [OF assms(1,2)]
    by (simp add: details_result_def commit_loop_log)
  have "concat (map (\<lambda>x. case x of Commit_Data c \<Rightarrow> [c] | Commit_Error s \<Rightarrow> [])
                  (map Commit_Data xs)) = xs" for xs
    by (induction xs) simp_all
  then have recs: "commit_records (fst (get_pr_details net args)) = ?commits"
    by (simp add: run commit_records_def prDetails_def)
  have logs: "snd (get_pr_details net args) = ?log'" by (simp add: run)
  have res: "fst (get_pr_details net args)
       = \<lparr>content = PR_Details_Json (search_method args) (prDetails pr (map Commit_Data ?commits)),
          isError = False\<rparr>"
    by (simp add: run)
  have len: "length ?commits = length cs" by (rule commit_loop_length)
  have fields: "\<forall>i<length cs. cd_hash (?commits ! i) = c_hash (cs ! i)
                      \<and> cd_message (?commits ! i) = c_message (cs ! i)"
    by (simp add: commit_entry_at)
  have with_diff: "?inc \<longrightarrow> length ?log' = 2 + length cs
          \<and> (\<forall>i<length cs.
                ?log' ! (2 + i) = Get_Commit_Diff (c_hash (cs ! i))
              \<and> cd_diff (?commits ! i)
                = Some (JStr (commit_diff (net (2 + i) (Get_Commit_Diff (c_hash (cs ! i)))))))"
    by (simp add: commit_entry_at)
  have without: "\<not> ?inc \<longrightarrow> length ?log' = 2 \<and> (\<forall>i<length cs. cd_diff (?commits ! i) = None)"
    by (simp add: commit_entry_at)
  have d1: "commit_diff (Rejected e) = ''Error fetching diff: '' @ e"
    by (simp add: commit_diff_def)
  have d2: "\<not> ok r' \<longrightarrow> commit_diff (Resolved r')
            = ''Error fetching diff: '' @ show_nat (status r') @ '' '' @ statusText r'"
    by (simp add: commit_diff_def)
  have d3: "ok r' \<and> text_body r' = Inr t \<longrightarrow> commit_diff (Resolved r') = t"
    by (simp add: commit_diff_def)
  show ?thesis
    unfolding recs logs
    using res len fields with_diff without d1 d2 d3 by (intro conjI)
qed

theorem commit_diffs_are_isolated_witness:
  "truthy_num (gd_pr_id (details_args None (Some 5) (Some True)))
   \<and> resolve_pr (details_net 200 []) [] (details_args None (Some 5) (Some True))
       = (Found (a_pull_request 5), [Get_PR 5])
   \<and> details_net 200 [] 1 (Get_PR_Commits 5)
       = Resolved (json_response 200 ''status text'' (J_Commits [a_commit ''c1'', a_commit ''c2'']))
   \<and> ok (json_response 200 ''status text'' (J_Commits [a_commit ''c1'', a_commit ''c2'']))
   \<and> \<not> isError (fst (get_pr_details (details_net 200 []) (details_args None (Some 5) (Some True))))
   \<and> length (commit_records
        (fst (get_pr_details (details_net 200 []) (details_args None (Some 5) (Some True))))) = 2
   \<and> cd_diff (commit_records
        (fst (get_pr_details (details_net 200 []) (details_args None (Some 5) (Some True)))) ! 0)
       = Some (JStr ''Error fetching diff: 500 Internal Server Error'')
   \<and> cd_diff (commit_records
        (fst (get_pr_details (details_net 200 []) (details_args None (Some 5) (Some True)))) ! 1)
       = Some (JStr ''diff --git a/f b/f'')
   \<and> length (snd (get_pr_details (details_net 200 []) (details_args None (Some 5) (Some False))))
       = 2
   \<and> cd_diff (commit_records
        (fst (get_pr_details (details_net 200 []) (details_args None (Some 5) (Some False)))) ! 0)
       = None
   \<and> cd_diff (commit_records
        (fst (get_pr_details (details_net 200 []) (details_args None (Some 5) (Some False)))) ! 1)
       = None"
proof -
  let ?r = "json_response 200 ''status text'' (J_Commits [a_commit ''c1'', a_commit ''c2''])"
  let ?cs = "[a_commit ''c1'', a_commit ''c2'']"
  let ?yes = "details_args None (Some 5) (Some True)"
  let ?no = "details_args None (Some 5) (Some False)"
  let ?net = "details_net 200 []"
  have t: "truthy_num (gd_pr_id (details_args None (Some 5) d))" for d
    by (simp add: details_args_def truthy_num_def)
  have h1: "truthy_str (gd_source_branch (details_args None (Some 5) d))
            \<or> truthy_num (gd_pr_id (details_args None (Some 5) d))" for d
    using t ..
  have h2: "resolve_pr ?net [] (details_args None (Some 5) d)
            = (Found (a_pull_request 5), [Get_PR 5])" for d
    by (simp add: resolve_pr_def details_args_def truthy_num_def num_or_def fetch_def
          details_net_def json_response_def ok_def)
  have h3: "?net 1 (Get_PR_Commits (pr_id (a_pull_request 5))) = Resolved ?r"
    by (simp add: details_net_def)
  have h3': "?net 1 (Get_PR_Commits 5) = Resolved ?r"
    by (simp add: details_net_def)
  have h4: "ok ?r" by (simp add: json_response_def ok_def)
  have h5: "json_body ?r = Inr (J_Commits ?cs)" by (simp add: json_response_def)
  have d0: "commit_diff (?net (2 + 0) (Get_Commit_Diff (c_hash (?cs ! 0))))
            = ''Error fetching diff: 500 Internal Server Error''"
    by (simp add: details_net_def a_commit_def commit_diff_def text_response_def ok_def
          show_nat.simps digit_char_def)
  have d1: "commit_diff (?net (2 + 1) (Get_Commit_Diff (c_hash (?cs ! 1))))
            = ''diff --git a/f b/f''"
    by (simp add: details_net_def a_commit_def commit_diff_def text_response_def ok_def)
  have inc: "gd_include_diff ?yes = Some True" and exc: "gd_include_diff ?no \<noteq> Some True"
    by (simp_all add: details_args_def)
  have l0: "(0::nat) < length ?cs" and l1: "(1::nat) < length ?cs" by simp_all
  note yes = commit_diffs_are_isolated
    [of ?yes ?net "a_pull_request 5" "[Get_PR 5]" ?r ?cs, OF h1 h2 h3 h4 h5]
  note no = commit_diffs_are_isolated
    [of ?no ?net "a_pull_request 5" "[Get_PR 5]" ?r ?cs, OF h1 h2 h3 h4 h5]
  have "isError (fst (get_pr_details ?net ?yes)) = isError
          \<lparr>content = PR_Details_Json (search_method ?yes)
            (prDetails (a_pull_request 5)
               (map Commit_Data (commit_records (fst (get_pr_details ?net ?yes))))),
          isError = False\<rparr>"
    using yes [THEN conjunct1] by (rule arg_cong)
  then have a: "\<not> isError (fst (get_pr_details ?net ?yes))" by simp
  have b: "length (commit_records (fst (get_pr_details ?net ?yes))) = 2"
    using yes [THEN conjunct2, THEN conjunct1] by simp
  note yes_diffs = yes [THEN conjunct2, THEN conjunct2, THEN conjunct2, THEN conjunct1,
                        THEN mp, OF inc, THEN conjunct2]
  have c: "cd_diff (commit_records (fst (get_pr_details ?net ?yes)) ! 0)
           = Some (JStr ''Error fetching diff: 500 Internal Server Error'')"
    using yes_diffs [THEN spec, of 0, THEN mp, OF l0, THEN conjunct2] by (simp only: d0)
  have d: "cd_diff (commit_records (fst (get_pr_details ?net ?yes)) ! 1)
           = Some (JStr ''diff --git a/f b/f'')"
    using yes_diffs [THEN spec, of 1, THEN mp, OF l1, THEN conjunct2] by (simp only: d1)
  note no_diffs = no [THEN conjunct2, THEN conjunct2, THEN conjunct2, THEN conjunct2,
                      THEN conjunct1, THEN mp, OF exc]
  have e: "length (snd (get_pr_details ?net ?no)) = 2"
    using no_diffs [THEN conjunct1] .
  have f: "cd_diff (commit_records (fst (get_pr_details ?net ?no)) ! 0) = None"
    using no_diffs [THEN conjunct2, THEN spec, of 0, THEN mp, OF l0] .
  have g: "cd_diff (commit_records (fst (get_pr_details ?net ?no)) ! 1) = None"
    using no_diffs [THEN conjunct2, THEN spec, of 1, THEN mp, OF l1] .
  show ?thesis using t [of "Some True"] h2 [of "Some True"] h3' h4 a b c d e f g
    by (intro conjI)
qed

section \<open>Properties of \<^verbatim>\<open>list_pull_requests\<close>\<close>

lemma list_pull_requests_log: "snd (list_pull_requests net args) = [pull_requests_url args]"
  by (simp add: list_pull_requests_def fetch_def
           split: fetch_outcome.splits sum.splits json_body.splits)

lemma call_list_pull_requests_log:
  "snd (call_list_pull_requests net args)
   = (if list_pull_requests_schema args then [pull_requests_url args] else [])"
  using list_pull_requests_log [of net args]
  by (auto simp: call_list_pull_requests_def split: prod.splits)

lemma schema_limit:
  "list_pull_requests_schema args \<Longrightarrow> lr_limit args = Some n \<Longrightarrow> 1 \<le> n \<and> n \<le> 100"
  by (simp add: list_pull_requests_schema_def)

lemma schema_page_size:
  "list_pull_requests_schema args \<Longrightarrow>
   1 \<le> num_or (lr_limit args) 50 \<and> num_or (lr_limit args) 50 \<le> 100"
  by (auto simp: list_pull_requests_schema_def num_or_def split: option.splits)

text \<open>
  C7. A call of \<^verbatim>\<open>list_pull_requests\<close> whose \<^verbatim>\<open>limit\<close> is below 1 or above 100, or whose
  \<^verbatim>\<open>page\<close> is below 1, is refused with the invalid-parameters error before the handler
  runs, so without any request. A call that conforms to the schema and has a \<^verbatim>\<open>limit\<close>
  issues one request, whose \<^verbatim>\<open>pagelen\<close> is that limit. No call issues a request with a
  page size outside 1..100.
\<close>

theorem limit_is_checked_before_any_request:
  "(lr_limit args = Some n \<and> (n < 1 \<or> 100 < n) \<longrightarrow>
      call_list_pull_requests net args = (Invalid_Params, []))
   \<and> (lr_page args = Some p \<and> p < 1 \<longrightarrow>
        call_list_pull_requests net args = (Invalid_Params, []))
   \<and> (list_pull_requests_schema args \<and> lr_limit args = Some n \<longrightarrow>
        1 \<le> n \<and> n \<le> 100
        \<and> (\<exists>st pg tb. snd (call_list_pull_requests net args) = [List_PRs st n pg tb])
        \<and> (\<exists>res. fst (call_list_pull_requests net args) = Handled res))
   \<and> (\<forall>q\<in>set (snd (call_list_pull_requests net args)).
         \<exists>st k pg tb. q = List_PRs st k pg tb \<and> 1 \<le> k \<and> k \<le> 100)"
proof (intro conjI impI)
  assume "lr_limit args = Some n \<and> (n < 1 \<or> 100 < n)"
  then have "\<not> list_pull_requests_schema args"
    by (auto simp: list_pull_requests_schema_def)
  then show "call_list_pull_requests net args = (Invalid_Params, [])"
    by (simp add: call_list_pull_requests_def)
next
  assume "lr_page args = Some p \<and> p < 1"
  then have "\<not> list_pull_requests_schema args"
    by (auto simp: list_pull_requests_schema_def)
  then show "call_list_pull_requests net args = (Invalid_Params, [])"
    by (simp add: call_list_pull_requests_def)
next
  assume a: "list_pull_requests_schema args \<and> lr_limit args = Some n"
  then show "1 \<le> n" and "n \<le> 100" using schema_limit by blast+
  then have "num_or (lr_limit args) 50 = n" using a by (simp add: num_or_def)
  then show "\<exists>st pg tb. snd (call_list_pull_requests net args) = [List_PRs st n pg tb]"
    using a by (simp add: call_list_pull_requests_log pull_requests_url_def)
  show "\<exists>res. fst (call_list_pull_requests net args) = Handled res"
    using a by (simp add: call_list_pull_requests_def split: prod.splits)
next
  show "\<forall>q\<in>set (snd (call_list_pull_requests net args)).
         \<exists>st k pg tb. q = List_PRs st k pg tb \<and> 1 \<le> k \<and> k \<le> 100"
    using schema_page_size [of args]
    by (simp add: call_list_pull_requests_log pull_requests_url_def)
qed

theorem limit_is_checked_before_any_request_witness:
  "call_list_pull_requests (details_net 200 []) (limit_args None (Some 0) None)
     = (Invalid_Params, [])
   \<and> call_list_pull_requests (details_net 200 []) (limit_args None (Some 101) None)
     = (Invalid_Params, [])
   \<and> call_list_pull_requests (details_net 200 []) (limit_args None None (Some 0))
     = (Invalid_Params, [])
   \<and> list_pull_requests_schema (limit_args (Some ''MERGED'') (Some 10) (Some 2))
   \<and> lr_limit (limit_args (Some ''MERGED'') (Some 10) (Some 2)) = Some 10
   \<and> (\<exists>st pg tb.
         snd (call_list_pull_requests (details_net 200 [])
                (limit_args (Some ''MERGED'') (Some 10) (Some 2)))
         = [List_PRs st 10 pg tb])"
proof -
  let ?net = "details_net 200 []"
  have h0: "lr_limit (limit_args None (Some 0) None) = Some 0 \<and> ((0::int) < 1 \<or> (100::int) < 0)"
    by (simp add: limit_args_def)
  have h101: "lr_limit (limit_args None (Some 101) None) = Some 101
              \<and> ((101::int) < 1 \<or> (100::int) < 101)"
    by (simp add: limit_args_def)
  have hp: "lr_page (limit_args None None (Some 0)) = Some 0 \<and> (0::int) < 1"
    by (simp add: limit_args_def)
  have hs: "list_pull_requests_schema (limit_args (Some ''MERGED'') (Some 10) (Some 2))"
    by (simp add: limit_args_def list_pull_requests_schema_def)
  have hl: "list_pull_requests_schema (limit_args (Some ''MERGED'') (Some 10) (Some 2))
            \<and> lr_limit (limit_args (Some ''MERGED'') (Some 10) (Some 2)) = Some 10"
    using hs by (simp add: limit_args_def)
  have 1: "call_list_pull_requests ?net (limit_args None (Some 0) None) = (Invalid_Params, [])"
    using limit_is_checked_before_any_request
            [of "limit_args None (Some 0) None" 0 ?net 0, THEN conjunct1, THEN mp, OF h0] .
  have 2: "call_list_pull_requests ?net (limit_args None (Some 101) None) = (Invalid_Params, [])"
    using limit_is_checked_before_any_request
            [of "limit_args None (Some 101) None" 101 ?net 0, THEN conjunct1, THEN mp, OF h101] .
  have 3: "call_list_pull_requests ?net (limit_args None None (Some 0)) = (Invalid_Params, [])"
    using limit_is_checked_before_any_request
            [of "limit_args None None (Some 0)" 0 ?net 0, THEN conjunct2, THEN conjunct1,
             THEN mp, OF hp] .
  have 4: "\<exists>st pg tb. snd (call_list_pull_requests ?net (limit_args (Some ''MERGED'') (Some 10) (Some 2)))
          = [List_PRs st 10 pg tb]"
    using limit_is_checked_before_any_request
            [of "limit_args (Some ''MERGED'') (Some 10) (Some 2)" 10 ?net 0,
             THEN conjunct2, THEN conjunct2, THEN conjunct1, THEN mp, OF hl] by blast
  show ?thesis using 1 2 3 hs hl [THEN conjunct2] 4 by (intro conjI)
qed

section \<open>Properties of the comment tools\<close>




end
